theory Spec2Isabelle
  imports Complex_Main
begin

section \<open>JavaScript values and errors\<close>

text \<open>
  Request data (filters, bodies, schemas, defaults) are JSON-like trees. Numbers are
  modelled as integers (no NaN, no fractions); \<open>JId\<close> is the principal's identity
  object (a database id), whose \<open>toString()\<close> is the string it carries. An object is
  its list of properties in insertion order.
\<close>

datatype jsval =
    JUndefined
  | JNull
  | JBool bool
  | JNum int
  | JStr string
  | JId string
  | JArr "jsval list"
  | JObj "(string \<times> jsval) list"

type_synonym jsobject = "(string \<times> jsval) list"

text \<open>JavaScript truthiness: \<open>undefined\<close>, \<open>null\<close>, \<open>false\<close>, \<open>0\<close> and \<open>""\<close> are falsy.\<close>

fun truthy :: "jsval \<Rightarrow> bool" where
  "truthy JUndefined = False"
| "truthy JNull = False"
| "truthy (JBool b) = b"
| "truthy (JNum n) = (n \<noteq> 0)"
| "truthy (JStr s) = (s \<noteq> [])"
| "truthy (JId _) = True"
| "truthy (JArr _) = True"
| "truthy (JObj _) = True"

text \<open>
  \<open>obj[key]\<close> on an object: the property's value, \<open>undefined\<close> when absent. Objects
  are plain data (parsed request bodies and filters) and a key reads an own property;
  a key that names a member inherited from \<open>Object.prototype\<close>, such as \<open>toString\<close> or
  \<open>constructor\<close>, is outside this model.
\<close>

definition obj_get :: "jsobject \<Rightarrow> string \<Rightarrow> jsval" where
  "obj_get obj key = (case map_of obj key of None \<Rightarrow> JUndefined | Some v \<Rightarrow> v)"

text \<open>\<open>delete obj[key]\<close>.\<close>

definition obj_delete :: "jsobject \<Rightarrow> string \<Rightarrow> jsobject" where
  "obj_delete obj key = filter (\<lambda>kv. fst kv \<noteq> key) obj"

text \<open>An entry of a validator's error list.\<close>

datatype ErrorObject = ErrorObject (message: string)

text \<open>
  What a call can throw: a \<open>StatusError(status, title, message, detail)\<close>, a plain
  \<open>Error(message)\<close>, or the runtime's \<open>TypeError\<close>.
\<close>

datatype js_error =
    StatusError int string string "ErrorObject list option"
  | Error string
  | TypeError

fun status :: "js_error \<Rightarrow> int option" where
  "status (StatusError s _ _ _) = Some s"
| "status _ = None"

type_synonym 'a result = "js_error + 'a"

section \<open>The shared cache\<close>

text \<open>
  The cache is an external collaborator, the \<open>node-cache\<close> library, with the interface
  \<open>has\<close>, \<open>get\<close>, \<open>set(key, value, ttlSeconds)\<close>, \<open>del\<close>, \<open>getTtl\<close>. It is modelled as
  a map from keys to a value and the absolute time (in milliseconds) at which the entry
  expires; every operation takes the current time \<open>now\<close> (the value of \<open>Date.now()\<close>),
  and one check of the rate limiter happens at one instant. As in the library, the
  expiry time \<open>0\<close> stands for an entry that never expires, and that is what \<open>set\<close>
  records for a time to live of \<open>0\<close>; for any other time to live it records
  \<open>now + ttl * 1000\<close>. An entry is expired when its expiry time is not \<open>0\<close> and lies
  before \<open>now\<close>; an expired entry is invisible to \<open>has\<close>, \<open>get\<close> and \<open>getTtl\<close>, and
  \<open>getTtl\<close> returns the recorded expiry time. Times are real numbers, so that seconds
  and milliseconds convert exactly.
\<close>

record Retry =
  count :: int
  retry :: int

datatype cval = CNum int | CRetry Retry

type_synonym NodeCache = "string \<Rightarrow> (cval \<times> real) option"

definition cache_has :: "NodeCache \<Rightarrow> real \<Rightarrow> string \<Rightarrow> bool" where
  "cache_has c now k = (case c k of None \<Rightarrow> False | Some (_, t) \<Rightarrow> t = 0 \<or> now \<le> t)"

definition cache_get :: "NodeCache \<Rightarrow> real \<Rightarrow> string \<Rightarrow> cval option" where
  "cache_get c now k =
     (case c k of None \<Rightarrow> None | Some (v, t) \<Rightarrow> if t = 0 \<or> now \<le> t then Some v else None)"

definition cache_getTtl :: "NodeCache \<Rightarrow> real \<Rightarrow> string \<Rightarrow> real option" where
  "cache_getTtl c now k =
     (case c k of None \<Rightarrow> None | Some (v, t) \<Rightarrow> if t = 0 \<or> now \<le> t then Some t else None)"

definition cache_set :: "NodeCache \<Rightarrow> real \<Rightarrow> string \<Rightarrow> cval \<Rightarrow> real \<Rightarrow> NodeCache" where
  "cache_set c now k v ttl = c(k \<mapsto> (v, if ttl = 0 then 0 else now + ttl * 1000))"

definition cache_del :: "NodeCache \<Rightarrow> string \<Rightarrow> NodeCache" where
  "cache_del c k = c(k := None)"

section \<open>The rate limiter\<close>

record IP =
  address :: string

definition TooManyRequest :: js_error where
  "TooManyRequest =
     StatusError 429 ''Too Many Request''
       ''You have exceeded the the number of request at this endpoint.'' None"

text \<open>
  \<open>BaseChain.checkRateLimit(windows, max)\<close>. The chain's \<open>path\<close>, \<open>ip\<close> and \<open>cache\<close>
  are arguments; the cache is returned as the call leaves it, also when the call throws.
  The source reads the primary entry as a number and the companion entry as a \<open>Retry\<close>
  (\<open>get<number>\<close>, \<open>get<Retry>\<close>); an entry of the other shape is outside that contract
  and is reported as a \<open>TypeError\<close> with the cache untouched.
\<close>

definition checkRateLimit ::
  "real \<Rightarrow> string \<Rightarrow> IP option \<Rightarrow> NodeCache option \<Rightarrow> real \<Rightarrow> int
     \<Rightarrow> unit result \<times> NodeCache option" where
  "checkRateLimit now path ip cache windows mx =
     (case ip of
        None \<Rightarrow> (Inr (), cache)
      | Some i \<Rightarrow>
     (case cache of
        None \<Rightarrow> (Inr (), cache)
      | Some c \<Rightarrow>
         let key = path @ ''-'' @ address i;
             retryKey = key @ ''-retry''
         in
         if cache_has c now key then
           (case cache_get c now key of
              Some (CNum cnt) \<Rightarrow>
                if cnt = 0 then
                  (if cache_has c now retryKey then
                     (case cache_get c now retryKey of
                        Some (CRetry r) \<Rightarrow>
                          if count r = 0 then
                            let r' = r\<lparr>retry := retry r + 1, count := 2 * mx - 1\<rparr>;
                                c1 = cache_set c now retryKey (CRetry r') windows;
                                c2 = cache_set c1 now key (CNum 0) (windows * of_int (retry r'))
                            in (Inl TooManyRequest, Some c2)
                          else
                            let r' = r\<lparr>count := count r - 1\<rparr>
                            in (Inl TooManyRequest,
                                Some (cache_set c now retryKey (CRetry r') windows))
                      | _ \<Rightarrow> (Inl TypeError, Some c))
                   else
                     let r = \<lparr>count = mx * 2 - 1, retry = 1\<rparr>
                     in (Inl TooManyRequest, Some (cache_set c now retryKey (CRetry r) windows)))
                else
                  (case cache_getTtl c now key of
                     Some ttl \<Rightarrow>
                       let newTtl = (ttl - now) / 1000
                       in (Inr (), Some (cache_set c now key (CNum (cnt - 1)) newTtl))
                   | None \<Rightarrow> (Inl TypeError, Some c))
            | _ \<Rightarrow> (Inl TypeError, Some c))
         else
           let c1 = (if cache_has c now retryKey then cache_del c retryKey else c)
           in (Inr (), Some (cache_set c1 now key (CNum (mx - 1)) windows))))"

section \<open>Principals, endpoint descriptors and collaborators\<close>

text \<open>
  The user types: the distinguished visitor type, and the other members of the
  enumeration by name.
\<close>

datatype UserType = Visitor | OtherUser string

text \<open>A \<open>KeyValue\<close> record maps a key to one denied string or to a list of them.\<close>

datatype KeyValueEntry = KVString string | KVList "string list"

type_synonym KeyValue = "(string \<times> KeyValueEntry) list"

record Uploads =
  field :: string
  acl :: string
  directory :: string

record RateLimit =
  ttl :: real
  max_rl :: int

text \<open>
  The per-verb policy of an endpoint (\<open>endpoint.query\<close> and \<open>endpoint.body\<close> have the
  same optional fields). An absent schema, default or options is \<open>JUndefined\<close>.
\<close>

record Policy =
  deniedKeys :: "string list option"
  deniedKeysValue :: "KeyValue option"
  schemas :: jsval
  default_data :: jsval
  options :: jsval
  errorTitle :: "string option"
  errorMessage :: "string option"
  useDefaultSchema :: "bool option"
  uploads :: "Uploads list option"

record EndpointSchema =
  rateLimit :: "RateLimit option"
  canVisitorVisit :: bool
  shouldCheckAction :: "bool option"
  endpoint_baseAction :: "string option"
  allowedUsers :: "UserType list option"
  query :: "Policy option"
  body :: "Policy option"

record UserLevel =
  level_actions :: "string list option"
  endpoints :: "string \<Rightarrow> EndpointSchema option"

text \<open>
  A user: its type, the string of its \<open>_id\<close> (\<open>None\<close> when it has none) and its level.
\<close>

record UserDocument =
  user_type :: "UserType option"
  user_id :: "string option"
  level :: "UserLevel option"

text \<open>
  The collaborators the chain calls and whose code is elsewhere: the action helpers
  (\<open>constructAction(base, prefix, field, prefixAction)\<close> and
  \<open>validateAction(action, granted, value)\<close>, which throws or returns), the schema
  compiler (\<open>ajv schema data\<close> is \<open>None\<close> when \<open>data\<close> validates and the validator's
  error list otherwise), the filter parser, the model's own schema, the deep merge
  and the upload relocator.
\<close>

record env =
  constructAction :: "string option \<Rightarrow> string option \<Rightarrow> string option \<Rightarrow> string option \<Rightarrow> string"
  validateAction :: "string \<Rightarrow> string list \<Rightarrow> jsval \<Rightarrow> js_error option"
  ajv :: "jsval \<Rightarrow> jsval \<Rightarrow> ErrorObject list option"
  parseNestedObject :: "jsobject \<Rightarrow> jsobject"
  getEntity :: jsval
  merge3 :: "jsval \<Rightarrow> jsval \<Rightarrow> jsval \<Rightarrow> jsval"
  moveFieldsFile :: "Uploads list \<Rightarrow> jsval \<Rightarrow> jsval result"

section \<open>The shared base of the chains\<close>

record BaseChain =
  user :: UserDocument
  path :: string
  prefix :: "string option"
  baseAction :: "string option"
  ip :: "IP option"
  endpoint :: "EndpointSchema option"
  actions :: "string list"
  callback :: "bool option"
  callbackMsg :: "string option"

text \<open>\<open>a || b\<close> on optional strings: the empty string is falsy, as \<open>undefined\<close> is.\<close>

definition str_or :: "string option \<Rightarrow> string option \<Rightarrow> string option" where
  "str_or a b = (case a of Some (x # xs) \<Rightarrow> a | _ \<Rightarrow> b)"

definition str_truthy :: "string option \<Rightarrow> bool" where
  "str_truthy a = (case a of Some (x # xs) \<Rightarrow> True | _ \<Rightarrow> False)"

text \<open>\<open>this.endpoint?.f\<close> for an optional field \<open>f\<close>.\<close>

definition endpoint_opt :: "'a BaseChain_scheme \<Rightarrow> (EndpointSchema \<Rightarrow> 'c option) \<Rightarrow> 'c option" where
  "endpoint_opt this f = (case endpoint this of None \<Rightarrow> None | Some e \<Rightarrow> f e)"

definition Unauthorized :: js_error where
  "Unauthorized = StatusError 401 ''Unauthorized'' ''You need to login to access this service.'' None"

definition InvalidAccount :: js_error where
  "InvalidAccount =
     StatusError 403 ''Invalid Account'' ''Sorry, your account is not able to perform this action.'' None"

definition visitorVisit :: "'a BaseChain_scheme \<Rightarrow> bool \<Rightarrow> unit result" where
  "visitorVisit this canVisit =
     (if \<not> canVisit \<and> user_type (user this) = Some Visitor then Inl Unauthorized else Inr ())"

definition checkIfUserIs :: "'a BaseChain_scheme \<Rightarrow> UserType list \<Rightarrow> unit result" where
  "checkIfUserIs this users =
     (if \<not> (case user_type (user this) of None \<Rightarrow> False | Some t \<Rightarrow> t \<in> set users)
      then Inl InvalidAccount else Inr ())"

definition checkUser :: "UserType \<Rightarrow> UserType list \<Rightarrow> unit result" where
  "checkUser currentUserType allowedUsers' =
     (if currentUserType \<notin> set allowedUsers' then Inl InvalidAccount else Inr ())"

text \<open>
  \<open>checkAction\<close> stores the resolved base action in the chain before it checks, so the
  chain is returned also when the call throws.
\<close>

definition checkAction ::
  "env \<Rightarrow> 'a BaseChain_scheme \<Rightarrow> string option
     \<Rightarrow> unit result \<times> 'a BaseChain_scheme" where
  "checkAction E this baseAction' =
     (let base = str_or (str_or baseAction' (baseAction this)) (endpoint_opt this endpoint_baseAction);
          this1 = this\<lparr>baseAction := str_or (baseAction this) base\<rparr>
      in if \<not> str_truthy base then (Inl (Error ''You have not set a base action to check.''), this1)
         else
           let action = constructAction E base (prefix this1) None None
           in (case validateAction E action (actions this1) JUndefined of
                 Some e \<Rightarrow> (Inl e, this1)
               | None \<Rightarrow> (Inr (), this1)))"

definition PredicateNotSucceeded :: "string option \<Rightarrow> js_error" where
  "PredicateNotSucceeded msg =
     StatusError 403 ''Predicate Not Succeeded''
       (case str_or msg None of
          Some m \<Rightarrow> m
        | None \<Rightarrow> ''You are not allowed to process further, because the provided predicate mismatches.'')
       None"

text \<open>
  \<open>BaseChain.prePerform\<close>: the predicate's result, when one was registered, must be true.
\<close>

definition BaseChain_prePerform :: "'a BaseChain_scheme \<Rightarrow> unit result" where
  "BaseChain_prePerform this =
     (case callback this of
        None \<Rightarrow> Inr ()
      | Some result \<Rightarrow> if \<not> result then Inl (PredicateNotSucceeded (callbackMsg this)) else Inr ())"

text \<open>
  The constructor of \<open>BaseChain\<close>: it resolves the endpoint, then runs the rate limiter
  (only with a cache, an address and a declared policy), the visitor check, the action
  check and the user check, in that order. The endpoint lookup by path is the map
  \<open>endpoints\<close> of the user's level. The result is the chain, or what was thrown, and
  the cache as the rate limiter left it.
\<close>

definition BaseChain_constructor ::
  "env \<Rightarrow> real \<Rightarrow> UserDocument \<Rightarrow> string \<Rightarrow> string option \<Rightarrow> string option
     \<Rightarrow> NodeCache option \<Rightarrow> IP option \<Rightarrow> BaseChain result \<times> NodeCache option" where
  "BaseChain_constructor E now user' path' prefix' baseAction' cache ip' =
     (let endpoint' = (case level user' of None \<Rightarrow> None | Some l \<Rightarrow> endpoints l path');
          actions' = (case level user' of
                        None \<Rightarrow> []
                      | Some l \<Rightarrow> (case level_actions l of None \<Rightarrow> [] | Some a \<Rightarrow> a));
          this = \<lparr>user = user', path = path', prefix = prefix', baseAction = baseAction',
                  ip = ip', endpoint = endpoint', actions = actions',
                  callback = None, callbackMsg = None\<rparr>;
          limited =
            (case endpoint_opt this rateLimit of
               Some rl \<Rightarrow>
                 if cache \<noteq> None \<and> ip' \<noteq> None
                 then checkRateLimit now path' ip' cache (ttl rl) (max_rl rl)
                 else (Inr (), cache)
             | None \<Rightarrow> (Inr (), cache))
      in (case fst limited of
            Inl e \<Rightarrow> Inl e
          | Inr _ \<Rightarrow>
        (case (if \<not> (case endpoint' of None \<Rightarrow> False | Some e \<Rightarrow> canVisitorVisit e)
               then visitorVisit this False else Inr ()) of
            Inl e \<Rightarrow> Inl e
          | Inr _ \<Rightarrow>
        (case (if endpoint_opt this shouldCheckAction \<noteq> Some False
               then checkAction E this (str_or (endpoint_opt this endpoint_baseAction) baseAction')
               else (Inr (), this)) of
            (Inl e, _) \<Rightarrow> Inl e
          | (Inr _, this1) \<Rightarrow>
        (case endpoint_opt this1 allowedUsers of
            Some (u # us) \<Rightarrow>
              (case checkIfUserIs this1 (u # us) of
                 Inl e \<Rightarrow> Inl e
               | Inr _ \<Rightarrow> Inr this1)
          | _ \<Rightarrow> Inr this1))),
          snd limited))"

section \<open>Denied-key and denied-value scanning\<close>

text \<open>
  ASCII case conversion, \<open>capitalize\<close> (first character upper, the rest lower) and
  \<open>trim\<close>. Strings are lists of 8-bit characters; of the white space that \<open>trim\<close>
  strips, those are the space, the tab, the line feed, the vertical tab, the form
  feed, the carriage return and the no-break space (the Unicode spaces and line
  separators beyond that range do not occur in these strings).
\<close>

definition toLowerCase_char :: "char \<Rightarrow> char" where
  "toLowerCase_char c =
     (let n = (of_char c :: nat) in if 65 \<le> n \<and> n \<le> 90 then char_of (n + 32) else c)"

definition toUpperCase_char :: "char \<Rightarrow> char" where
  "toUpperCase_char c =
     (let n = (of_char c :: nat) in if 97 \<le> n \<and> n \<le> 122 then char_of (n - 32) else c)"

definition capitalize :: "string \<Rightarrow> string" where
  "capitalize s =
     (case map toLowerCase_char s of [] \<Rightarrow> [] | c # cs \<Rightarrow> toUpperCase_char c # cs)"

definition is_space :: "char \<Rightarrow> bool" where
  "is_space c = (c = CHR '' '' \<or> c = CHR 0x09 \<or> c = CHR 0x0A \<or> c = CHR 0x0B \<or> c = CHR 0x0C
                 \<or> c = CHR 0x0D \<or> c = CHR 0xA0)"

definition trim :: "string \<Rightarrow> string" where
  "trim s = rev (dropWhile is_space (rev (dropWhile is_space s)))"

text \<open>
  The loop of \<open>_checkIfKeysExist\<close> over the denied keys. The object is mutated in
  place by \<open>delete\<close>, so it is returned with the outcome.
\<close>

fun checkIfKeysExist_loop ::
  "env \<Rightarrow> 'a BaseChain_scheme \<Rightarrow> string option \<Rightarrow> bool \<Rightarrow> jsobject \<Rightarrow> string list
     \<Rightarrow> unit result \<times> jsobject" where
  "checkIfKeysExist_loop E this prefixAction shouldDelete obj [] = (Inr (), obj)"
| "checkIfKeysExist_loop E this prefixAction shouldDelete obj (key # keys) =
     (if truthy (obj_get obj key) then
        if shouldDelete then
          checkIfKeysExist_loop E this prefixAction shouldDelete (obj_delete obj key) keys
        else
          let action = trim (constructAction E
                         (str_or (baseAction this) (endpoint_opt this endpoint_baseAction))
                         (prefix this) (Some (capitalize key)) prefixAction)
          in (case validateAction E action (actions this) (obj_get obj key) of
                Some e \<Rightarrow> (Inl e, obj)
              | None \<Rightarrow> checkIfKeysExist_loop E this prefixAction shouldDelete obj keys)
      else checkIfKeysExist_loop E this prefixAction shouldDelete obj keys)"

text \<open>\<open>BaseChain._checkIfKeysExist(obj, keys, prefixAction, shouldDelete)\<close>.\<close>

definition BaseChain_checkIfKeysExist ::
  "env \<Rightarrow> 'a BaseChain_scheme \<Rightarrow> jsobject option \<Rightarrow> string list option \<Rightarrow> string option
     \<Rightarrow> bool \<Rightarrow> unit result \<times> jsobject option" where
  "BaseChain_checkIfKeysExist E this obj keys prefixAction shouldDelete =
     (case obj of
        None \<Rightarrow> (Inr (), obj)
      | Some ob \<Rightarrow>
     (case keys of
        None \<Rightarrow> (Inr (), obj)
      | Some ks \<Rightarrow>
          (case checkIfKeysExist_loop E this prefixAction shouldDelete ob ks of
             (r, ob') \<Rightarrow> (r, Some ob'))))"

text \<open>
  The test of \<open>_checkIfKeysValueExist\<close>: strict equality with the denied string, or
  with one string of the denied list.
\<close>

definition value_match :: "jsval \<Rightarrow> KeyValueEntry \<Rightarrow> bool" where
  "value_match v rv =
     (case rv of
        KVString s \<Rightarrow> v = JStr s
      | KVList vs \<Rightarrow> list_ex (\<lambda>x. JStr x = v) vs)"

text \<open>
  The loop of \<open>_checkIfKeysValueExist\<close> over \<open>Object.keys(record)\<close>; an object has
  each key once, so the loop runs over the entries of the record.
\<close>

fun checkIfKeysValueExist_loop ::
  "env \<Rightarrow> 'a BaseChain_scheme \<Rightarrow> string option \<Rightarrow> bool \<Rightarrow> jsobject \<Rightarrow> KeyValue
     \<Rightarrow> unit result \<times> jsobject" where
  "checkIfKeysValueExist_loop E this prefixAction shouldDelete obj [] = (Inr (), obj)"
| "checkIfKeysValueExist_loop E this prefixAction shouldDelete obj ((key, rv) # rest) =
     (if truthy (obj_get obj key) then
        if value_match (obj_get obj key) rv then
          if shouldDelete then
            checkIfKeysValueExist_loop E this prefixAction shouldDelete (obj_delete obj key) rest
          else
            let action = constructAction E
                           (str_or (baseAction this) (endpoint_opt this endpoint_baseAction))
                           (prefix this) (Some (capitalize key)) prefixAction
            in (case validateAction E action (actions this) (obj_get obj key) of
                  Some e \<Rightarrow> (Inl e, obj)
                | None \<Rightarrow> checkIfKeysValueExist_loop E this prefixAction shouldDelete obj rest)
        else checkIfKeysValueExist_loop E this prefixAction shouldDelete obj rest
      else checkIfKeysValueExist_loop E this prefixAction shouldDelete obj rest)"

text \<open>\<open>BaseChain._checkIfKeysValueExist(obj, record, prefixAction, shouldDelete)\<close>.\<close>

definition BaseChain_checkIfKeysValueExist ::
  "env \<Rightarrow> 'a BaseChain_scheme \<Rightarrow> jsobject option \<Rightarrow> KeyValue option \<Rightarrow> string option
     \<Rightarrow> bool \<Rightarrow> unit result \<times> jsobject option" where
  "BaseChain_checkIfKeysValueExist E this obj record' prefixAction shouldDelete =
     (case obj of
        None \<Rightarrow> (Inr (), obj)
      | Some ob \<Rightarrow>
     (case record' of
        None \<Rightarrow> (Inr (), obj)
      | Some rc \<Rightarrow>
          (case checkIfKeysValueExist_loop E this prefixAction shouldDelete ob rc of
             (r, ob') \<Rightarrow> (r, Some ob'))))"

section \<open>The schema matcher\<close>

record ValidationResult =
  errors :: "ErrorObject list option"
  defaultValue :: jsval
  defaultOption :: jsval
  isValid :: bool

text \<open>
  \<open>v.name\<close> for one of the names \<open>anyOf\<close>, \<open>default\<close>, \<open>options\<close>: the property of an
  object, a \<open>TypeError\<close> on \<open>undefined\<close> and \<open>null\<close>, and \<open>undefined\<close> on any other
  value (none of the three names is a property of an array or of a primitive).
\<close>

fun js_prop :: "jsval \<Rightarrow> string \<Rightarrow> jsval result" where
  "js_prop (JObj ps) name = Inr (obj_get ps name)"
| "js_prop JUndefined name = Inl TypeError"
| "js_prop JNull name = Inl TypeError"
| "js_prop v name = Inr JUndefined"

fun getDefault :: "jsval \<Rightarrow> nat \<Rightarrow> jsval" where
  "getDefault (JArr xs) index = (if index < length xs then xs ! index else JUndefined)"
| "getDefault obj index = obj"

text \<open>
  \<open>excludeFields\<close>: a deep copy without the properties \<open>sort\<close> and \<open>locale\<close>. The
  \<open>delete\<close> throws on \<open>undefined\<close> and \<open>null\<close> and does nothing on a value that has
  no such property of its own.
\<close>

fun excludeFields :: "jsval \<Rightarrow> jsval result" where
  "excludeFields (JObj ps) = Inr (JObj (obj_delete (obj_delete ps ''sort'') ''locale''))"
| "excludeFields JUndefined = Inl TypeError"
| "excludeFields JNull = Inl TypeError"
| "excludeFields v = Inr v"

text \<open>
  The \<open>findIndex\<close> over the branches of \<open>anyOf\<close>, from position \<open>i\<close>; the variable
  \<open>errors\<close> of the enclosing function is overwritten by each failing branch.
\<close>

fun anyOf_findIndex ::
  "(jsval \<Rightarrow> jsval \<Rightarrow> ErrorObject list option) \<Rightarrow> jsval \<Rightarrow> jsval list \<Rightarrow> nat
     \<Rightarrow> ErrorObject list option \<Rightarrow> (nat option \<times> ErrorObject list option) result" where
  "anyOf_findIndex validate data [] i errs = Inr (None, errs)"
| "anyOf_findIndex validate data (subSchema # rest) i errs =
     (case excludeFields data of
        Inl e \<Rightarrow> Inl e
      | Inr d \<Rightarrow>
          (case validate subSchema d of
             None \<Rightarrow> Inr (Some i, errs)
           | Some es \<Rightarrow> anyOf_findIndex validate data rest (Suc i) (Some es)))"

text \<open>\<open>a ?? b\<close>.\<close>

definition nullish_or :: "jsval \<Rightarrow> jsval \<Rightarrow> jsval" where
  "nullish_or a b = (if a = JUndefined \<or> a = JNull then b else a)"

text \<open>\<open>validateDataSchema(data, schema, defaultData, defaultOpt)\<close>, over the compiler \<open>validate\<close>.\<close>

definition validateDataSchema ::
  "(jsval \<Rightarrow> jsval \<Rightarrow> ErrorObject list option) \<Rightarrow> jsval \<Rightarrow> jsval \<Rightarrow> jsval \<Rightarrow> jsval
     \<Rightarrow> ValidationResult result" where
  "validateDataSchema validate data schema defaultData defaultOpt =
     (case js_prop schema ''anyOf'' of
        Inl e \<Rightarrow> Inl e
      | Inr anyOf \<Rightarrow>
          if truthy anyOf then
            (case anyOf of
               JArr subs \<Rightarrow>
                 (case anyOf_findIndex validate data subs 0 None of
                    Inl e \<Rightarrow> Inl e
                  | Inr (Some index, errs) \<Rightarrow>
                      (case js_prop (subs ! index) ''default'' of
                         Inl e \<Rightarrow> Inl e
                       | Inr d \<Rightarrow>
                      (case js_prop (subs ! index) ''options'' of
                         Inl e \<Rightarrow> Inl e
                       | Inr opt \<Rightarrow>
                           Inr \<lparr>errors = errs,
                                defaultValue = (if truthy d then d else getDefault defaultData index),
                                defaultOption = (if truthy opt then opt else getDefault defaultOpt index),
                                isValid = True\<rparr>))
                  | Inr (None, errs) \<Rightarrow>
                      Inr \<lparr>errors = errs, defaultValue = defaultData,
                           defaultOption = defaultOpt, isValid = False\<rparr>)
             | _ \<Rightarrow> Inl TypeError)
          else
            (case excludeFields data of
               Inl e \<Rightarrow> Inl e
             | Inr d \<Rightarrow>
                 (case validate schema d of
                    Some es \<Rightarrow>
                      Inr \<lparr>errors = Some es, defaultValue = defaultData,
                           defaultOption = defaultOpt, isValid = False\<rparr>
                  | None \<Rightarrow>
                      (case js_prop schema ''default'' of
                         Inl e \<Rightarrow> Inl e
                       | Inr d' \<Rightarrow>
                      (case js_prop schema ''options'' of
                         Inl e \<Rightarrow> Inl e
                       | Inr opt \<Rightarrow>
                           Inr \<lparr>errors = None,
                                defaultValue = nullish_or d' defaultData,
                                defaultOption = nullish_or opt defaultOpt,
                                isValid = True\<rparr>)))))"

section \<open>Substituting the current user\<close>

text \<open>
  What the customizer of \<open>setCurrentUser\<close> returns for the sentinel: the user's id as
  an object, or its string with \<open>stringify\<close>; \<open>undefined\<close> when the user has no id.
\<close>

definition current_user_value :: "string option \<Rightarrow> bool \<Rightarrow> jsval" where
  "current_user_value uid stringify =
     (case uid of None \<Rightarrow> JUndefined | Some s \<Rightarrow> if stringify then JStr s else JId s)"

text \<open>
  \<open>cloneDeepWith(data, customizer)\<close> with that customizer: a copy of the tree in which
  a value for which the customizer returns something other than \<open>undefined\<close> is
  replaced by what it returns, and every other value is copied.
\<close>

fun cloneDeepWith_user :: "string option \<Rightarrow> bool \<Rightarrow> jsval \<Rightarrow> jsval" where
  "cloneDeepWith_user uid stringify (JStr s) =
     (if s = ''*current_user*'' \<and> current_user_value uid stringify \<noteq> JUndefined
      then current_user_value uid stringify else JStr s)"
| "cloneDeepWith_user uid stringify (JArr xs) = JArr (map (cloneDeepWith_user uid stringify) xs)"
| "cloneDeepWith_user uid stringify (JObj ps) =
     JObj (map (map_prod id (cloneDeepWith_user uid stringify)) ps)"
| "cloneDeepWith_user uid stringify v = v"

text \<open>\<open>BaseChain.setCurrentUser(data, callback, stringify)\<close>: the value it returns.\<close>

definition setCurrentUser :: "'a BaseChain_scheme \<Rightarrow> jsval \<Rightarrow> bool \<Rightarrow> jsval" where
  "setCurrentUser this data stringify = cloneDeepWith_user (user_id (user this)) stringify data"

text \<open>The decimal digits of an array index, for \<open>key.toString()\<close>.\<close>

fun show_nat :: "nat \<Rightarrow> string" where
  "show_nat n =
     (if n < 10 then [char_of (48 + n)] else show_nat (n div 10) @ [char_of (48 + n mod 10)])"

text \<open>
  The calls \<open>callback(key.toString(), value)\<close> that \<open>setCurrentUser\<close> makes, in order:
  one for each nested value whose key is truthy (a non-empty property name, an array
  index other than \<open>0\<close>), before the value is copied.
\<close>

fun callback_calls :: "jsval \<Rightarrow> (string \<times> jsval) list"
  and callback_calls_array :: "nat \<Rightarrow> jsval list \<Rightarrow> (string \<times> jsval) list"
  and callback_calls_object :: "(string \<times> jsval) list \<Rightarrow> (string \<times> jsval) list" where
  "callback_calls (JArr xs) = callback_calls_array 0 xs"
| "callback_calls (JObj ps) = callback_calls_object ps"
| "callback_calls v = []"
| "callback_calls_array i [] = []"
| "callback_calls_array i (x # xs) =
     (if i \<noteq> 0 then [(show_nat i, x)] else []) @ callback_calls x
       @ callback_calls_array (Suc i) xs"
| "callback_calls_object [] = []"
| "callback_calls_object ((k, v) # ps) =
     (if k \<noteq> [] then [(k, v)] else []) @ callback_calls v @ callback_calls_object ps"

subsection \<open>The substitution on a store of objects\<close>

text \<open>
  In the running program an object or an array is a mutable cell, and a value is a
  primitive or a reference to a cell. A store is the list of its cells, a reference is
  an index into it, and allocation appends. \<open>repr s v t\<close> says that in the store \<open>s\<close>
  the value \<open>v\<close> is the tree \<open>t\<close>.
\<close>

datatype hval = HUndefined | HNull | HBool bool | HNum int | HStr string | HId string | HRef nat

datatype hcell = HArr "hval list" | HObj "(string \<times> hval) list"

type_synonym store = "hcell list"

inductive repr :: "store \<Rightarrow> hval \<Rightarrow> jsval \<Rightarrow> bool" where
  "repr s HUndefined JUndefined"
| "repr s HNull JNull"
| "repr s (HBool b) (JBool b)"
| "repr s (HNum n) (JNum n)"
| "repr s (HStr x) (JStr x)"
| "repr s (HId x) (JId x)"
| "a < length s \<Longrightarrow> s ! a = HArr vs \<Longrightarrow> list_all2 (repr s) vs xs \<Longrightarrow> repr s (HRef a) (JArr xs)"
| "a < length s \<Longrightarrow> s ! a = HObj qs \<Longrightarrow> map fst qs = map fst ps \<Longrightarrow>
     list_all2 (repr s) (map snd qs) (map snd ps) \<Longrightarrow> repr s (HRef a) (JObj ps)"

code_pred repr .

text \<open>What the customizer returns is a primitive or the id object.\<close>

fun hval_of :: "jsval \<Rightarrow> hval" where
  "hval_of JUndefined = HUndefined"
| "hval_of JNull = HNull"
| "hval_of (JBool b) = HBool b"
| "hval_of (JNum n) = HNum n"
| "hval_of (JStr s) = HStr s"
| "hval_of (JId s) = HId s"
| "hval_of _ = HUndefined"

text \<open>
  \<open>cloneDeepWith\<close> with the customizer of \<open>setCurrentUser\<close>, on a store: it writes to no
  existing cell, and copies an array or an object into a new cell whose elements are
  the copies of the elements, made in order. The recursion follows references, so it
  carries fuel: \<open>None\<close> is a traversal that does not end within it (or a dangling
  reference).
\<close>

primrec clone_list ::
  "(store \<Rightarrow> hval \<Rightarrow> (hval \<times> store) option) \<Rightarrow> store \<Rightarrow> hval list
     \<Rightarrow> (hval list \<times> store) option" where
  "clone_list f s [] = Some ([], s)"
| "clone_list f s (v # vs) =
     (case f s v of
        None \<Rightarrow> None
      | Some (v', s1) \<Rightarrow>
          (case clone_list f s1 vs of
             None \<Rightarrow> None
           | Some (vs', s2) \<Rightarrow> Some (v' # vs', s2)))"

primrec store_clone ::
  "nat \<Rightarrow> string option \<Rightarrow> bool \<Rightarrow> store \<Rightarrow> hval \<Rightarrow> (hval \<times> store) option" where
  "store_clone 0 uid stringify s v = None"
| "store_clone (Suc n) uid stringify s v =
     (case v of
        HStr x \<Rightarrow>
          Some (if x = ''*current_user*'' \<and> current_user_value uid stringify \<noteq> JUndefined
                then hval_of (current_user_value uid stringify) else HStr x, s)
      | HRef a \<Rightarrow>
          (if a < length s then
             (case s ! a of
                HArr vs \<Rightarrow>
                  (case clone_list (store_clone n uid stringify) s vs of
                     None \<Rightarrow> None
                   | Some (vs', s') \<Rightarrow> Some (HRef (length s'), s' @ [HArr vs']))
              | HObj ps \<Rightarrow>
                  (case clone_list (store_clone n uid stringify) s (map snd ps) of
                     None \<Rightarrow> None
                   | Some (vs', s') \<Rightarrow>
                       Some (HRef (length s'), s' @ [HObj (zip (map fst ps) vs')])))
           else None)
      | _ \<Rightarrow> Some (v, s))"

text \<open>\<open>BaseChain.setCurrentUser(data, callback, stringify)\<close> on a store, with fuel \<open>n\<close>.\<close>

definition setCurrentUser_store ::
  "'a BaseChain_scheme \<Rightarrow> nat \<Rightarrow> store \<Rightarrow> hval \<Rightarrow> bool \<Rightarrow> (hval \<times> store) option" where
  "setCurrentUser_store this n s v stringify = store_clone n (user_id (user this)) stringify s v"

text \<open>
  The nesting depth of a tree; a value that refers to no cell below address \<open>k\<close>; cells
  that refer to no cell below \<open>k\<close>.
\<close>

fun depth :: "jsval \<Rightarrow> nat" where
  "depth (JArr xs) = Suc (fold max (map depth xs) 0)"
| "depth (JObj ps) = Suc (fold max (map (\<lambda>p. depth (snd p)) ps) 0)"
| "depth v = 0"

fun cell_refs :: "hcell \<Rightarrow> hval list" where
  "cell_refs (HArr vs) = vs"
| "cell_refs (HObj ps) = map snd ps"

definition fresh :: "nat \<Rightarrow> hval \<Rightarrow> bool" where
  "fresh k v = (case v of HRef a \<Rightarrow> k \<le> a | _ \<Rightarrow> True)"

definition fresh_cells :: "nat \<Rightarrow> hcell list \<Rightarrow> bool" where
  "fresh_cells k e = list_all (\<lambda>c. list_all (fresh k) (cell_refs c)) e"

section \<open>The chains\<close>

text \<open>
  \<open>this.endpoint?.query?.f\<close> and \<open>this.endpoint?.body?.f\<close>, for an optional field and
  for a field that holds a value.
\<close>

definition query_opt :: "'a BaseChain_scheme \<Rightarrow> (Policy \<Rightarrow> 'c option) \<Rightarrow> 'c option" where
  "query_opt this f = (case endpoint_opt this query of None \<Rightarrow> None | Some q \<Rightarrow> f q)"

definition body_opt :: "'a BaseChain_scheme \<Rightarrow> (Policy \<Rightarrow> 'c option) \<Rightarrow> 'c option" where
  "body_opt this f = (case endpoint_opt this body of None \<Rightarrow> None | Some b \<Rightarrow> f b)"

definition query_val :: "'a BaseChain_scheme \<Rightarrow> (Policy \<Rightarrow> jsval) \<Rightarrow> jsval" where
  "query_val this f = (case endpoint_opt this query of None \<Rightarrow> JUndefined | Some q \<Rightarrow> f q)"

definition body_val :: "'a BaseChain_scheme \<Rightarrow> (Policy \<Rightarrow> jsval) \<Rightarrow> jsval" where
  "body_val this f = (case endpoint_opt this body of None \<Rightarrow> JUndefined | Some b \<Rightarrow> f b)"

text \<open>\<open>set(this.endpoint.query, ...)\<close> and \<open>set(this.endpoint.body, ...)\<close>.\<close>

definition set_query :: "'a BaseChain_scheme \<Rightarrow> (Policy \<Rightarrow> Policy) \<Rightarrow> 'a BaseChain_scheme" where
  "set_query this f =
     this\<lparr>endpoint := map_option (\<lambda>e. e\<lparr>query := map_option f (query e)\<rparr>) (endpoint this)\<rparr>"

definition set_body :: "'a BaseChain_scheme \<Rightarrow> (Policy \<Rightarrow> Policy) \<Rightarrow> 'a BaseChain_scheme" where
  "set_body this f =
     this\<lparr>endpoint := map_option (\<lambda>e. e\<lparr>body := map_option f (body e)\<rparr>) (endpoint this)\<rparr>"

text \<open>
  Sequencing: the next statement runs on the state the previous one left, unless the
  previous one threw.
\<close>

definition andThen :: "unit result \<times> 's \<Rightarrow> ('s \<Rightarrow> unit result \<times> 's) \<Rightarrow> unit result \<times> 's" where
  "andThen r f = (case fst r of Inl e \<Rightarrow> r | Inr _ \<Rightarrow> f (snd r))"

text \<open>
  \<open>if (keys) this._checkIfKeysExist(obj, keys, undefined, shouldDelete)\<close> on an object
  held by the chain, and the same for the denied values: the outcome and the object
  as the call leaves it.
\<close>

definition scan_keys ::
  "env \<Rightarrow> 'a BaseChain_scheme \<Rightarrow> jsobject \<Rightarrow> string list option \<Rightarrow> bool
     \<Rightarrow> unit result \<times> jsobject" where
  "scan_keys E this obj keys shouldDelete =
     (case keys of
        None \<Rightarrow> (Inr (), obj)
      | Some ks \<Rightarrow>
          (case BaseChain_checkIfKeysExist E this (Some obj) (Some ks) None shouldDelete of
             (r, obj') \<Rightarrow> (r, case obj' of None \<Rightarrow> obj | Some ob \<Rightarrow> ob)))"

definition scan_values ::
  "env \<Rightarrow> 'a BaseChain_scheme \<Rightarrow> jsobject \<Rightarrow> KeyValue option \<Rightarrow> bool
     \<Rightarrow> unit result \<times> jsobject" where
  "scan_values E this obj record' shouldDelete =
     (case record' of
        None \<Rightarrow> (Inr (), obj)
      | Some rc \<Rightarrow>
          (case BaseChain_checkIfKeysValueExist E this (Some obj) (Some rc) None shouldDelete of
             (r, obj') \<Rightarrow> (r, case obj' of None \<Rightarrow> obj | Some ob \<Rightarrow> ob)))"

subsection \<open>Read\<close>

record ReadChain = BaseChain +
  read_filter :: jsobject

definition RestrictedQuery_message :: string where
  "RestrictedQuery_message = ''The query you provided is not allowed by the system.''"

text \<open>
  The last statement of \<open>ReadChain.prePerform\<close>: the filter against the declared
  schemas, with the current user substituted in them.
\<close>

definition ReadChain_validate :: "env \<Rightarrow> ReadChain \<Rightarrow> unit result \<times> ReadChain" where
  "ReadChain_validate E this =
     (if truthy (query_val this schemas) then
        (case validateDataSchema (ajv E) (JObj (read_filter this))
                (setCurrentUser this (query_val this schemas) True)
                (query_val this default_data) (query_val this options) of
           Inl e \<Rightarrow> (Inl e, this)
         | Inr res \<Rightarrow>
             if \<not> isValid res then
               (case errors res of
                  None \<Rightarrow> (Inl (StatusError 403 ''Restricted Query'' RestrictedQuery_message None), this)
                | Some [] \<Rightarrow> (Inl TypeError, this)
                | Some (e # es) \<Rightarrow>
                    (Inl (StatusError 403 ''Restricted Query''
                            (RestrictedQuery_message @ '' Your query '' @ message (last (e # es)))
                            (Some (e # es))), this))
             else
               (Inr (), set_query (set_query this (\<lambda>q. q\<lparr>default_data := defaultValue res\<rparr>))
                                  (\<lambda>q. q\<lparr>options := defaultOption res\<rparr>)))
      else (Inr (), this))"

definition ReadChain_prePerform :: "env \<Rightarrow> ReadChain \<Rightarrow> unit result \<times> ReadChain" where
  "ReadChain_prePerform E this0 =
     andThen (BaseChain_prePerform this0, this0) (\<lambda>this.
     andThen (case scan_keys E this (read_filter this) (query_opt this deniedKeys) True of
                (r, f) \<Rightarrow> (r, this\<lparr>read_filter := f\<rparr>)) (\<lambda>this.
     andThen (case scan_values E this (read_filter this) (query_opt this deniedKeysValue) True of
                (r, f) \<Rightarrow> (r, this\<lparr>read_filter := f\<rparr>)) (\<lambda>this.
     andThen (Inr (), this\<lparr>read_filter := parseNestedObject E (read_filter this)\<rparr>) (\<lambda>this.
       ReadChain_validate E this))))"

subsection \<open>Update\<close>

record UpdateChain = BaseChain +
  update_filter :: jsobject
  update_body :: jsobject

definition UpdateChain_checkIfKeysExist ::
  "env \<Rightarrow> UpdateChain \<Rightarrow> string list \<Rightarrow> string option \<Rightarrow> bool \<Rightarrow> unit result \<times> UpdateChain" where
  "UpdateChain_checkIfKeysExist E this keys prefixAction shouldDelete =
     (case BaseChain_checkIfKeysExist E this (Some (update_body this)) (Some keys)
             prefixAction shouldDelete of
        (r, obj') \<Rightarrow> (r, case obj' of None \<Rightarrow> this | Some ob \<Rightarrow> this\<lparr>update_body := ob\<rparr>))"

definition UpdateChain_checkIfKeysValueExist ::
  "env \<Rightarrow> UpdateChain \<Rightarrow> KeyValue \<Rightarrow> string option \<Rightarrow> bool \<Rightarrow> unit result \<times> UpdateChain" where
  "UpdateChain_checkIfKeysValueExist E this record' prefixAction shouldDelete =
     (case BaseChain_checkIfKeysValueExist E this (Some (update_body this)) (Some record')
             prefixAction shouldDelete of
        (r, obj') \<Rightarrow> (r, case obj' of None \<Rightarrow> this | Some ob \<Rightarrow> this\<lparr>update_body := ob\<rparr>))"

definition or_default :: "string option \<Rightarrow> string \<Rightarrow> string" where
  "or_default a d = (case str_or a None of Some x \<Rightarrow> x | None \<Rightarrow> d)"

text \<open>
  The last two statements of \<open>UpdateChain.prePerform\<close>: a non-empty filter against the
  query schemas, a non-empty update against the body schemas. Both take the title and
  the message from \<open>endpoint.query\<close>.
\<close>

definition UpdateChain_validate_query :: "env \<Rightarrow> UpdateChain \<Rightarrow> unit result \<times> UpdateChain" where
  "UpdateChain_validate_query E this =
     (if truthy (query_val this schemas) \<and> update_filter this \<noteq> [] then
        (case ajv E (query_val this schemas) (JObj (update_filter this)) of
           Some es \<Rightarrow>
             (Inl (StatusError 403
                     (or_default (query_opt this errorTitle) ''Restricted Query'')
                     (or_default (query_opt this errorMessage)
                        ''The query you provided is not allowed by the system.'')
                     None), this)
         | None \<Rightarrow> (Inr (), this))
      else (Inr (), this))"

definition UpdateChain_validate_body :: "env \<Rightarrow> UpdateChain \<Rightarrow> unit result \<times> UpdateChain" where
  "UpdateChain_validate_body E this =
     (if truthy (body_val this schemas) \<and> update_body this \<noteq> [] then
        (case ajv E (body_val this schemas) (JObj (update_body this)) of
           Some es \<Rightarrow>
             (Inl (StatusError 403
                     (or_default (query_opt this errorTitle) ''Restricted Body'')
                     (or_default (query_opt this errorMessage)
                        ''The body you provided is not allowed by the system.'')
                     (Some es)), this)
         | None \<Rightarrow> (Inr (), this))
      else (Inr (), this))"

definition UpdateChain_prePerform :: "env \<Rightarrow> UpdateChain \<Rightarrow> unit result \<times> UpdateChain" where
  "UpdateChain_prePerform E this0 =
     andThen (BaseChain_prePerform this0, this0) (\<lambda>this.
     andThen (case scan_keys E this (update_filter this) (query_opt this deniedKeys) True of
                (r, f) \<Rightarrow> (r, this\<lparr>update_filter := f\<rparr>)) (\<lambda>this.
     andThen (case scan_values E this (update_filter this) (query_opt this deniedKeysValue) True of
                (r, f) \<Rightarrow> (r, this\<lparr>update_filter := f\<rparr>)) (\<lambda>this.
     andThen (case body_opt this deniedKeys of
                None \<Rightarrow> (Inr (), this)
              | Some ks \<Rightarrow> UpdateChain_checkIfKeysExist E this ks None True) (\<lambda>this.
     andThen (case body_opt this deniedKeysValue of
                None \<Rightarrow> (Inr (), this)
              | Some rc \<Rightarrow> UpdateChain_checkIfKeysValueExist E this rc None True) (\<lambda>this.
     andThen (UpdateChain_validate_query E this) (\<lambda>this.
       UpdateChain_validate_body E this))))))"

subsection \<open>Delete\<close>

record DeleteChain = BaseChain +
  delete_filter :: jsobject

text \<open>The last statement of \<open>DeleteChain.prePerform\<close>: the filter against the schemas.\<close>

definition DeleteChain_validate :: "env \<Rightarrow> DeleteChain \<Rightarrow> unit result \<times> DeleteChain" where
  "DeleteChain_validate E this =
     (if truthy (query_val this schemas) then
        (case validateDataSchema (ajv E) (JObj (delete_filter this)) (query_val this schemas)
                (query_val this default_data) JUndefined of
           Inl e \<Rightarrow> (Inl e, this)
         | Inr res \<Rightarrow>
             if \<not> isValid res then
               (Inl (StatusError 403 ''Restricted Query''
                       ''The query you provided is not allowed by the system.'' (errors res)), this)
             else (Inr (), set_query this (\<lambda>q. q\<lparr>default_data := defaultValue res\<rparr>)))
      else (Inr (), this))"

text \<open>
  \<open>DeleteChain.prePerform\<close>: its \<open>checkIfKeysExist\<close> and \<open>checkIfKeysValueExist\<close> pass
  no \<open>shouldDelete\<close>, which is then \<open>false\<close>.
\<close>

definition DeleteChain_prePerform :: "env \<Rightarrow> DeleteChain \<Rightarrow> unit result \<times> DeleteChain" where
  "DeleteChain_prePerform E this0 =
     andThen (BaseChain_prePerform this0, this0) (\<lambda>this.
     andThen (case scan_keys E this (delete_filter this) (query_opt this deniedKeys) False of
                (r, f) \<Rightarrow> (r, this\<lparr>delete_filter := f\<rparr>)) (\<lambda>this.
     andThen (case scan_values E this (delete_filter this) (query_opt this deniedKeysValue) False of
                (r, f) \<Rightarrow> (r, this\<lparr>delete_filter := f\<rparr>)) (\<lambda>this.
       DeleteChain_validate E this)))"

subsection \<open>Create\<close>

record CreateChain = BaseChain +
  doc :: jsobject

record CreateChainResult =
  result_doc :: jsval
  result_filter :: jsval
  result_options :: jsval

definition CreateChain_checkIfKeysExist ::
  "env \<Rightarrow> CreateChain \<Rightarrow> string list \<Rightarrow> string option \<Rightarrow> bool \<Rightarrow> unit result \<times> CreateChain" where
  "CreateChain_checkIfKeysExist E this keys prefixAction shouldDelete =
     (case BaseChain_checkIfKeysExist E this (Some (doc this)) (Some keys)
             prefixAction shouldDelete of
        (r, obj') \<Rightarrow> (r, case obj' of None \<Rightarrow> this | Some ob \<Rightarrow> this\<lparr>doc := ob\<rparr>))"

definition CreateChain_checkIfKeysValueExist ::
  "env \<Rightarrow> CreateChain \<Rightarrow> KeyValue \<Rightarrow> string option \<Rightarrow> bool \<Rightarrow> unit result \<times> CreateChain" where
  "CreateChain_checkIfKeysValueExist E this record' prefixAction shouldDelete =
     (case BaseChain_checkIfKeysValueExist E this (Some (doc this)) (Some record')
             prefixAction shouldDelete of
        (r, obj') \<Rightarrow> (r, case obj' of None \<Rightarrow> this | Some ob \<Rightarrow> this\<lparr>doc := ob\<rparr>))"

definition RestrictedData :: "ErrorObject list option \<Rightarrow> js_error" where
  "RestrictedData detail =
     StatusError 403 ''Restricted Data''
       ''The data you provided violates some of our policies. Check it or consulate support.''
       detail"

text \<open>
  The last statement of \<open>CreateChain.prePerform\<close>: the document against the declared
  schemas, or else, unless \<open>useDefaultSchema\<close> is \<open>false\<close>, against the model's schema.
\<close>

definition CreateChain_validate :: "env \<Rightarrow> CreateChain \<Rightarrow> unit result \<times> CreateChain" where
  "CreateChain_validate E this =
     (if truthy (body_val this schemas) then
        (case validateDataSchema (ajv E) (JObj (doc this)) (body_val this schemas)
                (body_val this default_data) JUndefined of
           Inl e \<Rightarrow> (Inl e, this)
         | Inr res \<Rightarrow>
             if \<not> isValid res then (Inl (RestrictedData (errors res)), this)
             else (Inr (), set_body this (\<lambda>b. b\<lparr>default_data := defaultValue res\<rparr>)))
      else if body_opt this useDefaultSchema \<noteq> Some False then
        (case ajv E (getEntity E) (JObj (doc this)) of
           Some es \<Rightarrow> (Inl (RestrictedData (Some es)), this)
         | None \<Rightarrow> (Inr (), this))
      else (Inr (), this))"

definition CreateChain_prePerform :: "env \<Rightarrow> CreateChain \<Rightarrow> unit result \<times> CreateChain" where
  "CreateChain_prePerform E this0 =
     andThen (BaseChain_prePerform this0, this0) (\<lambda>this.
     andThen (case body_opt this deniedKeys of
                None \<Rightarrow> (Inr (), this)
              | Some ks \<Rightarrow> CreateChain_checkIfKeysExist E this ks None True) (\<lambda>this.
     andThen (case body_opt this deniedKeysValue of
                None \<Rightarrow> (Inr (), this)
              | Some rc \<Rightarrow> CreateChain_checkIfKeysValueExist E this rc None True) (\<lambda>this.
       CreateChain_validate E this)))"

text \<open>
  \<open>s.replaceAll(pattern, replacement)\<close> for a non-empty pattern (the source's pattern is
  the sentinel), and \<open>key.endsWith(suffix)\<close>. The replacement is inserted as it is: the
  source's replacement is the string of a user id, and the patterns that start with a
  dollar sign, which the runtime expands in a replacement, are not modelled.
\<close>

fun replaceAll :: "string \<Rightarrow> string \<Rightarrow> string \<Rightarrow> string" where
  "replaceAll pat rep [] = []"
| "replaceAll pat rep (c # cs) =
     (if pat \<noteq> [] \<and> take (length pat) (c # cs) = pat
      then rep @ replaceAll pat rep (drop (length pat - 1) cs)
      else c # replaceAll pat rep cs)"

definition endsWith :: "string \<Rightarrow> string \<Rightarrow> bool" where
  "endsWith s suffix = (length suffix \<le> length s \<and> drop (length s - length suffix) s = suffix)"

text \<open>\<open>uniqBy(uploads, "field")\<close>: the first upload of each field, in order.\<close>

fun uniqBy_field :: "Uploads list \<Rightarrow> string list \<Rightarrow> Uploads list" where
  "uniqBy_field [] seen = []"
| "uniqBy_field (u # us) seen =
     (if field u \<in> set seen then uniqBy_field us seen
      else u # uniqBy_field us (field u # seen))"

text \<open>
  The uploads that the observer \<open>uploadFile\<close> collects from the calls of
  \<open>setCurrentUser\<close>: one for each key ending in \<open>_file_url\<close> with a string value. A
  missing id or base action prints as \<open>undefined\<close> in the directory.
\<close>

definition uploadFile :: "CreateChain \<Rightarrow> (string \<times> jsval) list \<Rightarrow> Uploads list" where
  "uploadFile this calls =
     map (\<lambda>kv. \<lparr>field = fst kv, acl = ''authenticated-read'',
                directory = ''users/''
                  @ (case user_id (user this) of None \<Rightarrow> ''undefined'' | Some s \<Rightarrow> s)
                  @ ''/''
                  @ (case baseAction this of None \<Rightarrow> ''undefined'' | Some b \<Rightarrow> b)\<rparr>)
       (filter (\<lambda>kv. endsWith (fst kv) ''_file_url'' \<and> (case snd kv of JStr _ \<Rightarrow> True | _ \<Rightarrow> False))
          calls)"

text \<open>
  \<open>CreateChain.perform(options)\<close>: \<open>prePerform\<close> first; only when it returns are the
  document, the uploads and the descriptor computed.
\<close>

definition CreateChain_perform ::
  "env \<Rightarrow> CreateChain \<Rightarrow> jsval \<Rightarrow> CreateChainResult result \<times> CreateChain" where
  "CreateChain_perform E this0 options' =
     (case CreateChain_prePerform E this0 of
        (Inl e, this) \<Rightarrow> (Inl e, this)
      | (Inr _, this) \<Rightarrow>
          let merged = merge3 E (JObj []) (JObj (doc this))
                         (if truthy (body_val this default_data) then body_val this default_data
                          else JObj []);
              tempUploads = uploadFile this (callback_calls merged);
              doc1 = setCurrentUser this merged False;
              uploads0 = (case body_opt this uploads of None \<Rightarrow> [] | Some us \<Rightarrow> us)
          in
          (case (if uploads0 = [] then Inr []
                 else (case user_id (user this) of
                         None \<Rightarrow> Inl TypeError
                       | Some uid \<Rightarrow>
                           Inr (map (\<lambda>u. u\<lparr>directory := replaceAll ''*current_user*'' uid (directory u)\<rparr>)
                                  uploads0))) of
             Inl e \<Rightarrow> (Inl e, this)
           | Inr uploads1 \<Rightarrow>
               let tempUploads1 = uniqBy_field (uploads1 @ tempUploads) []
               in
               (case (if tempUploads1 \<noteq> [] then moveFieldsFile E tempUploads1 doc1
                      else Inr (JObj [])) of
                  Inl e \<Rightarrow> (Inl e, this)
                | Inr files \<Rightarrow>
                    (Inr \<lparr>result_doc = merge3 E (JObj []) doc1 files,
                          result_filter = query_val this default_data,
                          result_options = options'\<rparr>, this))))"

section \<open>Request sequences and sample data\<close>

text \<open>
  The live entry of a key at a time, and a sequence of rate-limiter checks on one
  chain configuration at the given times: for each request its outcome and, as the
  request leaves them, the live primary and companion entries.
\<close>

definition live_entry :: "NodeCache \<Rightarrow> real \<Rightarrow> string \<Rightarrow> (cval \<times> real) option" where
  "live_entry c now k = (if cache_has c now k then c k else None)"

fun requests ::
  "string \<Rightarrow> IP \<Rightarrow> real \<Rightarrow> int \<Rightarrow> NodeCache \<Rightarrow> real list
     \<Rightarrow> (unit result \<times> (cval \<times> real) option \<times> (cval \<times> real) option) list" where
  "requests path' i w m c [] = []"
| "requests path' i w m c (now # rest) =
     (case checkRateLimit now path' (Some i) (Some c) w m of
        (r, Some c') \<Rightarrow>
          (r, live_entry c' now (path' @ ''-'' @ address i),
              live_entry c' now (path' @ ''-'' @ address i @ ''-retry''))
            # requests path' i w m c' rest
      | (r, None) \<Rightarrow> [])"

text \<open>
  A sample set of collaborators, for evaluating the chains on concrete requests. An
  action is its parts joined by colons and must be a member of the granted list (a 403
  otherwise); the validator knows the \<open>properties\<close> of a schema with their \<open>type\<close>,
  one level deep, and requires each of them; the filter parser changes nothing; the
  merge appends the properties of its arguments; no file is moved.
\<close>

definition sample_constructAction ::
  "string option \<Rightarrow> string option \<Rightarrow> string option \<Rightarrow> string option \<Rightarrow> string" where
  "sample_constructAction base pre fld prefixAction =
     (case pre of None \<Rightarrow> [] | Some p \<Rightarrow> p @ '':'')
       @ (case base of None \<Rightarrow> ''undefined'' | Some b \<Rightarrow> b)
       @ (case fld of None \<Rightarrow> [] | Some f \<Rightarrow> '':'' @ f)
       @ (case prefixAction of None \<Rightarrow> [] | Some a \<Rightarrow> '':'' @ a)"

definition sample_validateAction :: "string \<Rightarrow> string list \<Rightarrow> jsval \<Rightarrow> js_error option" where
  "sample_validateAction action granted v =
     (if action \<in> set granted then None
      else Some (StatusError 403 ''Permission Denied'' action None))"

definition sample_type_ok :: "string \<Rightarrow> jsval \<Rightarrow> bool" where
  "sample_type_ok ty v =
     (if ty = ''string'' then (case v of JStr _ \<Rightarrow> True | _ \<Rightarrow> False)
      else if ty = ''number'' then (case v of JNum _ \<Rightarrow> True | _ \<Rightarrow> False)
      else if ty = ''object'' then (case v of JObj _ \<Rightarrow> True | _ \<Rightarrow> False)
      else True)"

definition sample_property_errors :: "jsobject \<Rightarrow> string \<times> jsval \<Rightarrow> ErrorObject list" where
  "sample_property_errors dat kp =
     (case snd kp of
        JObj p \<Rightarrow>
          (case obj_get p ''type'' of
             JStr ty \<Rightarrow>
               if sample_type_ok ty (obj_get dat (fst kp)) then []
               else [ErrorObject (''/'' @ fst kp @ '' must be '' @ ty)]
           | _ \<Rightarrow> [])
      | _ \<Rightarrow> [])"

definition sample_ajv :: "jsval \<Rightarrow> jsval \<Rightarrow> ErrorObject list option" where
  "sample_ajv schema dat =
     (case schema of
        JObj sp \<Rightarrow>
          (case obj_get sp ''properties'' of
             JObj props \<Rightarrow>
               (case dat of
                  JObj dp \<Rightarrow>
                    (case concat (map (sample_property_errors dp) props) of
                       [] \<Rightarrow> None
                     | e # es \<Rightarrow> Some (e # es))
                | _ \<Rightarrow> Some [ErrorObject ''must be object''])
           | _ \<Rightarrow> None)
      | _ \<Rightarrow> None)"

definition sample_merge3 :: "jsval \<Rightarrow> jsval \<Rightarrow> jsval \<Rightarrow> jsval" where
  "sample_merge3 a b c =
     JObj ((case a of JObj p \<Rightarrow> p | _ \<Rightarrow> []) @ (case b of JObj p \<Rightarrow> p | _ \<Rightarrow> [])
           @ (case c of JObj p \<Rightarrow> p | _ \<Rightarrow> []))"

definition sample_env :: env where
  "sample_env =
     \<lparr>constructAction = sample_constructAction,
      validateAction = sample_validateAction,
      ajv = sample_ajv,
      parseNestedObject = (\<lambda>f. f),
      getEntity = JObj [],
      merge3 = sample_merge3,
      moveFieldsFile = (\<lambda>us d. Inr (JObj []))\<rparr>"

text \<open>
  A sample endpoint policy and a sample user: the body must have a string \<open>name\<close>, the
  keys \<open>role\<close> and \<open>tenant\<close> are denied in query and body, and so is the status \<open>banned\<close>.
\<close>

definition name_schema :: jsval where
  "name_schema =
     JObj [(''type'', JStr ''object''),
           (''properties'', JObj [(''name'', JObj [(''type'', JStr ''string'')])]),
           (''required'', JArr [JStr ''name''])]"

definition sample_query :: Policy where
  "sample_query =
     \<lparr>deniedKeys = Some [''role'', ''tenant''],
      deniedKeysValue = Some [(''status'', KVList [''banned''])],
      schemas = JUndefined, default_data = JUndefined, options = JUndefined,
      errorTitle = None, errorMessage = None, useDefaultSchema = None, uploads = None\<rparr>"

definition sample_body :: Policy where
  "sample_body = sample_query\<lparr>schemas := name_schema\<rparr>"

definition sample_endpoint :: EndpointSchema where
  "sample_endpoint =
     \<lparr>rateLimit = Some \<lparr>ttl = 10, max_rl = 3\<rparr>, canVisitorVisit = False,
      shouldCheckAction = None, endpoint_baseAction = Some ''User'', allowedUsers = None,
      query = Some sample_query, body = Some sample_body\<rparr>"

definition sample_user :: UserDocument where
  "sample_user =
     \<lparr>user_type = Some (OtherUser ''Member''), user_id = Some ''65f0c0ffee'',
      level = Some \<lparr>level_actions = Some [''Create:User'', ''Read:User'', ''Update:User''],
                    endpoints = (\<lambda>p. if p = ''/users'' then Some sample_endpoint else None)\<rparr>\<rparr>"

definition sample_chain :: "string \<Rightarrow> BaseChain" where
  "sample_chain pre =
     \<lparr>user = sample_user, path = ''/users'', prefix = Some pre, baseAction = Some ''User'',
      ip = Some \<lparr>address = ''10.0.0.1''\<rparr>, endpoint = Some sample_endpoint,
      actions = [''Create:User'', ''Read:User'', ''Update:User''],
      callback = None, callbackMsg = None\<rparr>"

text \<open>
  Sample chains on that endpoint. The create and update bodies carry the denied key
  \<open>role\<close>, for which the sample user holds no action.
\<close>

definition sample_create :: CreateChain where
  "sample_create = BaseChain.extend (sample_chain ''Create'')
      (CreateChain.fields [(''name'', JStr ''Ann''), (''role'', JStr ''admin'')])"

definition sample_update :: UpdateChain where
  "sample_update = BaseChain.extend (sample_chain ''Update'')
      (UpdateChain.fields [(''id'', JNum 7)] [(''name'', JStr ''Ann''), (''role'', JStr ''admin'')])"

text \<open>Two alternative schemas: a string \<open>name\<close>, or a number \<open>name\<close>.\<close>

definition schemaA :: jsval where
  "schemaA = JObj [(''properties'', JObj [(''name'', JObj [(''type'', JStr ''string'')])])]"

definition schemaB :: jsval where
  "schemaB = JObj [(''properties'', JObj [(''name'', JObj [(''type'', JStr ''number'')])])]"

definition anyOf_AB :: jsval where
  "anyOf_AB = JObj [(''anyOf'', JArr [schemaA, schemaB])]"

text \<open>An outcome that is an authentication-class error: a thrown error with status 401.\<close>

definition throws_401 :: "'a result \<Rightarrow> bool" where
  "throws_401 r = (case r of Inl e \<Rightarrow> status e = Some 401 | Inr _ \<Rightarrow> False)"

text \<open>
  The substitution in the words of the specification: a deep copy of the data in which
  every scalar equal to the sentinel is the given identity.
\<close>

fun substituteIdentity :: "jsval \<Rightarrow> string \<Rightarrow> jsval \<Rightarrow> jsval" where
  "substituteIdentity (JStr s) sentinel ident = (if s = sentinel then ident else JStr s)"
| "substituteIdentity (JArr xs) sentinel ident =
     JArr (map (\<lambda>x. substituteIdentity x sentinel ident) xs)"
| "substituteIdentity (JObj ps) sentinel ident =
     JObj (map (map_prod id (\<lambda>x. substituteIdentity x sentinel ident)) ps)"
| "substituteIdentity v sentinel ident = v"

text \<open>Delete and read chains on the sample endpoint, and a visitor.\<close>

definition sample_delete :: DeleteChain where
  "sample_delete = BaseChain.extend (sample_chain ''Delete'')
      (DeleteChain.fields [(''id'', JNum 7), (''role'', JStr ''admin'')])"

definition sample_visitor :: UserDocument where
  "sample_visitor = sample_user\<lparr>user_type := Some Visitor, user_id := None\<rparr>"

text \<open>
  What deletion-mode scanning leaves of an object, in the words of the specification:
  the object without the denied keys that held a truthy value, then without the keys
  whose truthy value was one of the denied values.
\<close>

definition remove_denied_keys :: "string list \<Rightarrow> jsobject \<Rightarrow> jsobject" where
  "remove_denied_keys ks obj =
     filter (\<lambda>kv. \<not> (fst kv \<in> set ks \<and> truthy (obj_get obj (fst kv)))) obj"

definition remove_denied_values :: "KeyValue \<Rightarrow> jsobject \<Rightarrow> jsobject" where
  "remove_denied_values rc obj =
     filter (\<lambda>kv. \<not> (truthy (obj_get obj (fst kv)) \<and>
                     list_ex (\<lambda>e. fst e = fst kv \<and> value_match (obj_get obj (fst kv)) (snd e)) rc))
       obj"

definition strip_denied :: "string list option \<Rightarrow> KeyValue option \<Rightarrow> jsobject \<Rightarrow> jsobject" where
  "strip_denied dk dkv obj =
     (let o1 = (case dk of None \<Rightarrow> obj | Some ks \<Rightarrow> remove_denied_keys ks obj)
      in case dkv of None \<Rightarrow> o1 | Some rc \<Rightarrow> remove_denied_values rc o1)"

section \<open>Properties of the rate limiter\<close>

subsection \<open>The five cases of a check\<close>

lemma rl_fresh:
  assumes "\<not> cache_has c now (path' @ ''-'' @ address i)"
  shows "checkRateLimit now path' (Some i) (Some c) w m =
     (Inr (), Some (cache_set
        (if cache_has c now (path' @ ''-'' @ address i @ ''-retry'')
         then cache_del c (path' @ ''-'' @ address i @ ''-retry'') else c)
        now (path' @ ''-'' @ address i) (CNum (m - 1)) w))"
  using assms
  by (simp add: checkRateLimit_def Let_def)

lemma rl_decrement:
  assumes "c (path' @ ''-'' @ address i) = Some (CNum n, t)" "t = 0 \<or> now \<le> t" "n \<noteq> 0"
  shows "checkRateLimit now path' (Some i) (Some c) w m =
     (Inr (), Some (c(path' @ ''-'' @ address i \<mapsto> (CNum (n - 1), if t = now then 0 else t))))"
proof -
  have a: "now + (t - now) / 1000 * 1000 = t" by argo
  have b: "((t - now) / 1000 = 0) = (t = now)" by simp
  have "cache_set c now (path' @ ''-'' @ address i) (CNum (n - 1)) ((t - now) / 1000) =
        c(path' @ ''-'' @ address i \<mapsto> (CNum (n - 1), if t = now then 0 else t))"
    unfolding cache_set_def b a by simp
  with assms show ?thesis
    by (auto simp: checkRateLimit_def Let_def cache_has_def cache_get_def cache_getTtl_def)
qed

lemma rl_deny_first:
  assumes "c (path' @ ''-'' @ address i) = Some (CNum 0, t)" "t = 0 \<or> now \<le> t"
    "\<not> cache_has c now (path' @ ''-'' @ address i @ ''-retry'')"
  shows "checkRateLimit now path' (Some i) (Some c) w m =
     (Inl TooManyRequest,
      Some (cache_set c now (path' @ ''-'' @ address i @ ''-retry'')
              (CRetry \<lparr>count = m * 2 - 1, retry = 1\<rparr>) w))"
  using assms
  by (auto simp: checkRateLimit_def Let_def cache_has_def cache_get_def)

lemma rl_deny_again:
  assumes "c (path' @ ''-'' @ address i) = Some (CNum 0, t)" "t = 0 \<or> now \<le> t"
    "c (path' @ ''-'' @ address i @ ''-retry'') = Some (CRetry r, t')" "t' = 0 \<or> now \<le> t'"
    "count r \<noteq> 0"
  shows "checkRateLimit now path' (Some i) (Some c) w m =
     (Inl TooManyRequest,
      Some (cache_set c now (path' @ ''-'' @ address i @ ''-retry'')
              (CRetry (r\<lparr>count := count r - 1\<rparr>)) w))"
  using assms
  by (auto simp: checkRateLimit_def Let_def cache_has_def cache_get_def)

lemma rl_escalate:
  assumes "c (path' @ ''-'' @ address i) = Some (CNum 0, t)" "t = 0 \<or> now \<le> t"
    "c (path' @ ''-'' @ address i @ ''-retry'') = Some (CRetry r, t')" "t' = 0 \<or> now \<le> t'"
    "count r = 0"
  shows "checkRateLimit now path' (Some i) (Some c) w m =
     (Inl TooManyRequest,
      Some (cache_set
              (cache_set c now (path' @ ''-'' @ address i @ ''-retry'')
                 (CRetry \<lparr>count = 2 * m - 1, retry = retry r + 1\<rparr>) w)
              now (path' @ ''-'' @ address i) (CNum 0) (w * of_int (retry r + 1))))"
  using assms
  by (cases r) (auto simp: checkRateLimit_def Let_def cache_has_def cache_get_def)

lemma requests_step:
  assumes "checkRateLimit now path' (Some i) (Some c) w m = (r, Some c')"
  shows "requests path' i w m c (now # rest) =
     (r, live_entry c' now (path' @ ''-'' @ address i),
         live_entry c' now (path' @ ''-'' @ address i @ ''-retry''))
       # requests path' i w m c' rest"
  using assms by simp

text \<open>
  C10. A chain without a client address or without a shared cache: \<open>checkRateLimit\<close>
  returns at once, allows the request and leaves the cache as it is, whatever the
  window and the maximum; the constructor, which calls it only with both present,
  leaves the cache as it is too.
\<close>

theorem checkRateLimit_disabled:
  assumes "ip' = None \<or> cache = None"
  shows "checkRateLimit now path' ip' cache w m = (Inr (), cache)
       \<and> snd (BaseChain_constructor E now u path' pre ba cache ip') = cache"
proof
  show "checkRateLimit now path' ip' cache w m = (Inr (), cache)"
    using assms by (auto simp: checkRateLimit_def split: option.splits)
next
  have "(case endpoint_opt this rateLimit of
           Some rl \<Rightarrow>
             if cache \<noteq> None \<and> ip' \<noteq> None
             then checkRateLimit now path' ip' cache (ttl rl) (max_rl rl)
             else (Inr (), cache)
         | None \<Rightarrow> (Inr (), cache)) = (Inr (), cache)" for this :: BaseChain
    using assms by (auto split: option.splits)
  then show "snd (BaseChain_constructor E now u path' pre ba cache ip') = cache"
    by (simp add: BaseChain_constructor_def Let_def)
qed

theorem checkRateLimit_disabled_witness:
  "checkRateLimit 0 ''/users'' None (Some (\<lambda>k. None)) 10 3 = (Inr (), Some (\<lambda>k. None))
   \<and> snd (BaseChain_constructor sample_env 0 sample_user ''/users'' (Some ''Read'') None
             (Some (\<lambda>k. None)) None) = Some (\<lambda>k. None)"
  using checkRateLimit_disabled [of None "Some (\<lambda>k. None)" 0 "''/users''" 10 3 sample_env
      sample_user "Some ''Read''" None]
  by simp

subsection \<open>A decrement and the expiry of the entry\<close>

text \<open>
  A decrement before the entry's expiry instant keeps the expiry: the entry is set to
  \<open>n - 1\<close> with the time to live it has left, whatever the window.
\<close>

lemma decrement_before_expiry:
  assumes "c (path' @ ''-'' @ address i) = Some (CNum n, t)" "now < t" "0 < n"
  shows "checkRateLimit now path' (Some i) (Some c) w m =
           (Inr (), Some (c(path' @ ''-'' @ address i \<mapsto> (CNum (n - 1), t))))"
  using rl_decrement [of c path' i n t now w m] assms by simp

text \<open>
  C5 fails on the code at one instant. A check at the very millisecond at which the
  entry expires still finds the entry (value 2, expiry 10000, checked at 10000) and
  re-sets it with the time to live that is left, \<open>0\<close> seconds, which the cache takes as
  ``never expires'': the entry comes back with value 1 and expiry \<open>0\<close>. The window
  boundary is lost: in the sequence below the third request, 40 s after the window has
  ended, still finds the entry and decrements it instead of opening a new window.
\<close>

theorem decrement_at_expiry_never_expires:
  "cache_get ((\<lambda>k. None)(''/users-10.0.0.1'' \<mapsto> (CNum 2, 10000))) 10000 ''/users-10.0.0.1'' =
     Some (CNum 2)
   \<and> cache_getTtl ((\<lambda>k. None)(''/users-10.0.0.1'' \<mapsto> (CNum 2, 10000))) 10000 ''/users-10.0.0.1'' =
     Some 10000
   \<and> checkRateLimit 10000 ''/users'' (Some \<lparr>address = ''10.0.0.1''\<rparr>)
        (Some ((\<lambda>k. None)(''/users-10.0.0.1'' \<mapsto> (CNum 2, 10000)))) 10 3 =
      (Inr (), Some ((\<lambda>k. None)(''/users-10.0.0.1'' \<mapsto> (CNum 1, 0))))
   \<and> requests ''/users'' \<lparr>address = ''10.0.0.1''\<rparr> 10 3 (\<lambda>k. None) [0, 10000, 50000] =
      [(Inr (), Some (CNum 2, 10000), None),
       (Inr (), Some (CNum 1, 0), None),
       (Inr (), Some (CNum 0, 0), None)]"
  by (simp add: checkRateLimit_def Let_def cache_set_def cache_has_def cache_get_def
        cache_getTtl_def cache_del_def live_entry_def)

text \<open>
  C1, as the claim states it, fails: with window 10 s and maximum 3, requests at 0 s,
  9 s, 9 s and 9 s exhaust the counter and create the penalty entry, which lives until
  19 s; a fifth request at 15 s finds the penalty entry alive but the primary entry
  expired, so it is allowed, opens a new window and clears the penalty.
\<close>

theorem penalty_alive_request_allowed:
  "requests ''/users'' \<lparr>address = ''10.0.0.1''\<rparr> 10 3 (\<lambda>k. None) [0, 9000, 9000, 9000, 15000]
   = [(Inr (), Some (CNum 2, 10000), None),
      (Inr (), Some (CNum 1, 10000), None),
      (Inr (), Some (CNum 0, 10000), None),
      (Inl TooManyRequest, Some (CNum 0, 10000), Some (CRetry \<lparr>count = 5, retry = 1\<rparr>, 19000)),
      (Inr (), Some (CNum 2, 25000), None)]"
  by (simp add: checkRateLimit_def Let_def cache_set_def cache_has_def cache_get_def
        cache_getTtl_def cache_del_def live_entry_def)

text \<open>
  C1, amended. With window 10 s and maximum 3, ten requests on one key, at times from
  the clock's origin on, that all fall inside the window opened by the first (each less
  than 10 s after it, so that the primary entry lives throughout), starting without a
  live primary entry: requests 1 to 3 are allowed; request 4 is denied with status 429
  and creates the penalty entry with escalation 1 and remaining 5; requests 5 to 9 are
  denied and each decrements remaining, escalation staying 1; request 10, the denial
  after remaining has reached 0, sets escalation to 2, remaining to 5, and the primary
  entry's expiry to 20 s after that request. Each row is the outcome, the live primary
  entry and the live penalty entry after the request.
\<close>

theorem burst_within_window:
  fixes t1 t2 t3 t4 t5 t6 t7 t8 t9 t10 :: real
  assumes ord: "0 \<le> t1" "t1 \<le> t2" "t2 \<le> t3" "t3 \<le> t4" "t4 \<le> t5" "t5 \<le> t6" "t6 \<le> t7"
      "t7 \<le> t8" "t8 \<le> t9" "t9 \<le> t10"
    and window: "t10 < t1 + 10000"
    and fresh: "\<not> cache_has c0 t1 (path' @ ''-'' @ address i)"
  shows "requests path' i 10 3 c0 [t1, t2, t3, t4, t5, t6, t7, t8, t9, t10] =
    [(Inr (), Some (CNum 2, t1 + 10000), None),
     (Inr (), Some (CNum 1, t1 + 10000), None),
     (Inr (), Some (CNum 0, t1 + 10000), None),
     (Inl TooManyRequest, Some (CNum 0, t1 + 10000), Some (CRetry \<lparr>count = 5, retry = 1\<rparr>, t4 + 10000)),
     (Inl TooManyRequest, Some (CNum 0, t1 + 10000), Some (CRetry \<lparr>count = 4, retry = 1\<rparr>, t5 + 10000)),
     (Inl TooManyRequest, Some (CNum 0, t1 + 10000), Some (CRetry \<lparr>count = 3, retry = 1\<rparr>, t6 + 10000)),
     (Inl TooManyRequest, Some (CNum 0, t1 + 10000), Some (CRetry \<lparr>count = 2, retry = 1\<rparr>, t7 + 10000)),
     (Inl TooManyRequest, Some (CNum 0, t1 + 10000), Some (CRetry \<lparr>count = 1, retry = 1\<rparr>, t8 + 10000)),
     (Inl TooManyRequest, Some (CNum 0, t1 + 10000), Some (CRetry \<lparr>count = 0, retry = 1\<rparr>, t9 + 10000)),
     (Inl TooManyRequest, Some (CNum 0, t10 + 20000), Some (CRetry \<lparr>count = 5, retry = 2\<rparr>, t10 + 10000))]"
proof -
  define key where "key = path' @ ''-'' @ address i"
  define rkey where "rkey = path' @ ''-'' @ address i @ ''-retry''"
  have ne: "rkey \<noteq> key" "key \<noteq> rkey" by (simp_all add: key_def rkey_def)
  define c1 where "c1 = (if cache_has c0 t1 rkey then cache_del c0 rkey else c0)(key \<mapsto> (CNum 2, t1 + 10000))"
  define c2 where "c2 = c1(key \<mapsto> (CNum 1, t1 + 10000))"
  define c3 where "c3 = c2(key \<mapsto> (CNum 0, t1 + 10000))"
  define c4 where "c4 = c3(rkey \<mapsto> (CRetry \<lparr>count = 5, retry = 1\<rparr>, t4 + 10000))"
  define c5 where "c5 = c4(rkey \<mapsto> (CRetry \<lparr>count = 4, retry = 1\<rparr>, t5 + 10000))"
  define c6 where "c6 = c5(rkey \<mapsto> (CRetry \<lparr>count = 3, retry = 1\<rparr>, t6 + 10000))"
  define c7 where "c7 = c6(rkey \<mapsto> (CRetry \<lparr>count = 2, retry = 1\<rparr>, t7 + 10000))"
  define c8 where "c8 = c7(rkey \<mapsto> (CRetry \<lparr>count = 1, retry = 1\<rparr>, t8 + 10000))"
  define c9 where "c9 = c8(rkey \<mapsto> (CRetry \<lparr>count = 0, retry = 1\<rparr>, t9 + 10000))"
  define c10 where "c10 = c9(rkey \<mapsto> (CRetry \<lparr>count = 5, retry = 2\<rparr>, t10 + 10000),
                            key \<mapsto> (CNum 0, t10 + 20000))"
  have pos: "0 \<le> t2" "0 \<le> t3" "0 \<le> t4" "0 \<le> t5" "0 \<le> t6" "0 \<le> t7" "0 \<le> t8" "0 \<le> t9"
      "0 \<le> t10"
    using ord by simp_all
  have lt: "t2 < t1 + 10000" "t3 < t1 + 10000" "t4 < t1 + 10000" "t5 < t1 + 10000"
      "t6 < t1 + 10000" "t7 < t1 + 10000" "t8 < t1 + 10000" "t9 < t1 + 10000"
    using ord window by simp_all
  have noretry: "\<not> cache_has c1 t rkey" if "t1 \<le> t" for t
  proof (cases "cache_has c0 t1 rkey")
    case True
    then show ?thesis using ne by (simp add: c1_def cache_has_def cache_del_def)
  next
    case False
    then show ?thesis
      using ne that by (auto simp: c1_def cache_has_def split: option.splits)
  qed
  have s1: "checkRateLimit t1 path' (Some i) (Some c0) 10 3 = (Inr (), Some c1)"
    using rl_fresh [OF fresh, of 10 3] ord(1) by (simp add: c1_def key_def rkey_def cache_set_def)
  have s2: "checkRateLimit t2 path' (Some i) (Some c1) 10 3 = (Inr (), Some c2)"
    using rl_decrement [of c1 path' i 2 "t1 + 10000" t2 10 3] lt
    by (simp add: c1_def c2_def key_def)
  have s3: "checkRateLimit t3 path' (Some i) (Some c2) 10 3 = (Inr (), Some c3)"
    using rl_decrement [of c2 path' i 1 "t1 + 10000" t3 10 3] lt
    by (simp add: c2_def c3_def key_def)
  have nr3: "\<not> cache_has c3 t4 rkey"
    using noretry [of t4] ord ne by (simp add: c3_def c2_def cache_has_def)
  have s4: "checkRateLimit t4 path' (Some i) (Some c3) 10 3 = (Inl TooManyRequest, Some c4)"
    using rl_deny_first [of c3 path' i "t1 + 10000" t4 10 3] lt nr3
    by (simp add: c3_def c4_def key_def rkey_def cache_set_def)
  have k: "c4 key = Some (CNum 0, t1 + 10000)" "c5 key = Some (CNum 0, t1 + 10000)"
    "c6 key = Some (CNum 0, t1 + 10000)" "c7 key = Some (CNum 0, t1 + 10000)"
    "c8 key = Some (CNum 0, t1 + 10000)" "c9 key = Some (CNum 0, t1 + 10000)"
    using ne by (simp_all add: c3_def c4_def c5_def c6_def c7_def c8_def c9_def)
  have s5: "checkRateLimit t5 path' (Some i) (Some c4) 10 3 = (Inl TooManyRequest, Some c5)"
    using rl_deny_again [of c4 path' i "t1 + 10000" t5 "\<lparr>count = 5, retry = 1\<rparr>" "t4 + 10000" 10 3]
      ord lt k
    by (simp add: c4_def c5_def key_def rkey_def cache_set_def)
  have s6: "checkRateLimit t6 path' (Some i) (Some c5) 10 3 = (Inl TooManyRequest, Some c6)"
    using rl_deny_again [of c5 path' i "t1 + 10000" t6 "\<lparr>count = 4, retry = 1\<rparr>" "t5 + 10000" 10 3]
      ord lt k
    by (simp add: c5_def c6_def key_def rkey_def cache_set_def)
  have s7: "checkRateLimit t7 path' (Some i) (Some c6) 10 3 = (Inl TooManyRequest, Some c7)"
    using rl_deny_again [of c6 path' i "t1 + 10000" t7 "\<lparr>count = 3, retry = 1\<rparr>" "t6 + 10000" 10 3]
      ord lt k
    by (simp add: c6_def c7_def key_def rkey_def cache_set_def)
  have s8: "checkRateLimit t8 path' (Some i) (Some c7) 10 3 = (Inl TooManyRequest, Some c8)"
    using rl_deny_again [of c7 path' i "t1 + 10000" t8 "\<lparr>count = 2, retry = 1\<rparr>" "t7 + 10000" 10 3]
      ord lt k
    by (simp add: c7_def c8_def key_def rkey_def cache_set_def)
  have s9: "checkRateLimit t9 path' (Some i) (Some c8) 10 3 = (Inl TooManyRequest, Some c9)"
    using rl_deny_again [of c8 path' i "t1 + 10000" t9 "\<lparr>count = 1, retry = 1\<rparr>" "t8 + 10000" 10 3]
      ord lt k
    by (simp add: c8_def c9_def key_def rkey_def cache_set_def)
  have s10: "checkRateLimit t10 path' (Some i) (Some c9) 10 3 = (Inl TooManyRequest, Some c10)"
    using rl_escalate [of c9 path' i "t1 + 10000" t10 "\<lparr>count = 0, retry = 1\<rparr>" "t9 + 10000" 10 3]
      ord window k
    by (simp add: c9_def c10_def key_def rkey_def cache_set_def)
  have l1: "live_entry c1 t1 key = Some (CNum 2, t1 + 10000)" "live_entry c1 t1 rkey = None"
    using noretry [of t1] by (simp_all add: live_entry_def cache_has_def c1_def)
  have l2: "live_entry c2 t2 key = Some (CNum 1, t1 + 10000)" "live_entry c2 t2 rkey = None"
    using noretry [of t2] ord lt ne by (simp_all add: live_entry_def cache_has_def c2_def)
  have l3: "live_entry c3 t3 key = Some (CNum 0, t1 + 10000)" "live_entry c3 t3 rkey = None"
    using noretry [of t3] ord lt ne by (simp_all add: live_entry_def cache_has_def c3_def c2_def)
  have l4: "live_entry c4 t4 key = Some (CNum 0, t1 + 10000)"
      "live_entry c4 t4 rkey = Some (CRetry \<lparr>count = 5, retry = 1\<rparr>, t4 + 10000)"
    using lt k by (simp_all add: live_entry_def cache_has_def c4_def)
  have l5: "live_entry c5 t5 key = Some (CNum 0, t1 + 10000)"
      "live_entry c5 t5 rkey = Some (CRetry \<lparr>count = 4, retry = 1\<rparr>, t5 + 10000)"
    using lt k by (simp_all add: live_entry_def cache_has_def c5_def)
  have l6: "live_entry c6 t6 key = Some (CNum 0, t1 + 10000)"
      "live_entry c6 t6 rkey = Some (CRetry \<lparr>count = 3, retry = 1\<rparr>, t6 + 10000)"
    using lt k by (simp_all add: live_entry_def cache_has_def c6_def)
  have l7: "live_entry c7 t7 key = Some (CNum 0, t1 + 10000)"
      "live_entry c7 t7 rkey = Some (CRetry \<lparr>count = 2, retry = 1\<rparr>, t7 + 10000)"
    using lt k by (simp_all add: live_entry_def cache_has_def c7_def)
  have l8: "live_entry c8 t8 key = Some (CNum 0, t1 + 10000)"
      "live_entry c8 t8 rkey = Some (CRetry \<lparr>count = 1, retry = 1\<rparr>, t8 + 10000)"
    using lt k by (simp_all add: live_entry_def cache_has_def c8_def)
  have l9: "live_entry c9 t9 key = Some (CNum 0, t1 + 10000)"
      "live_entry c9 t9 rkey = Some (CRetry \<lparr>count = 0, retry = 1\<rparr>, t9 + 10000)"
    using lt k by (simp_all add: live_entry_def cache_has_def c9_def)
  have l10: "live_entry c10 t10 key = Some (CNum 0, t10 + 20000)"
      "live_entry c10 t10 rkey = Some (CRetry \<lparr>count = 5, retry = 2\<rparr>, t10 + 10000)"
    using ne by (simp_all add: live_entry_def cache_has_def c10_def)
  show ?thesis
    unfolding requests_step [OF s1] requests_step [OF s2] requests_step [OF s3] requests_step [OF s4]
      requests_step [OF s5] requests_step [OF s6] requests_step [OF s7] requests_step [OF s8]
      requests_step [OF s9] requests_step [OF s10]
    using l1 l2 l3 l4 l5 l6 l7 l8 l9 l10
    by (simp add: key_def rkey_def)
qed

theorem burst_within_window_witness:
  "\<not> cache_has (\<lambda>k. None) 0 (''/users'' @ ''-'' @ address \<lparr>address = ''10.0.0.1''\<rparr>)
   \<and> requests ''/users'' \<lparr>address = ''10.0.0.1''\<rparr> 10 3 (\<lambda>k. None)
        [0, 1000, 2000, 3000, 4000, 5000, 6000, 7000, 8000, 9000] =
    [(Inr (), Some (CNum 2, 10000), None),
     (Inr (), Some (CNum 1, 10000), None),
     (Inr (), Some (CNum 0, 10000), None),
     (Inl TooManyRequest, Some (CNum 0, 10000), Some (CRetry \<lparr>count = 5, retry = 1\<rparr>, 13000)),
     (Inl TooManyRequest, Some (CNum 0, 10000), Some (CRetry \<lparr>count = 4, retry = 1\<rparr>, 14000)),
     (Inl TooManyRequest, Some (CNum 0, 10000), Some (CRetry \<lparr>count = 3, retry = 1\<rparr>, 15000)),
     (Inl TooManyRequest, Some (CNum 0, 10000), Some (CRetry \<lparr>count = 2, retry = 1\<rparr>, 16000)),
     (Inl TooManyRequest, Some (CNum 0, 10000), Some (CRetry \<lparr>count = 1, retry = 1\<rparr>, 17000)),
     (Inl TooManyRequest, Some (CNum 0, 10000), Some (CRetry \<lparr>count = 0, retry = 1\<rparr>, 18000)),
     (Inl TooManyRequest, Some (CNum 0, 29000), Some (CRetry \<lparr>count = 5, retry = 2\<rparr>, 19000))]"
proof -
  have f: "\<not> cache_has (\<lambda>k. None) 0 (''/users'' @ ''-'' @ address \<lparr>address = ''10.0.0.1''\<rparr>)"
    by (simp add: cache_has_def)
  show ?thesis
    using f burst_within_window [of 0 1000 2000 3000 4000 5000 6000 7000 8000 9000
        "\<lambda>k. None" "''/users''" "\<lparr>address = ''10.0.0.1''\<rparr>"]
    by simp
qed

section \<open>Properties of the scanning\<close>

lemma map_of_obj_delete: "map_of (obj_delete obj k) k' = (if k' = k then None else map_of obj k')"
  by (induction obj) (auto simp: obj_delete_def)

lemma obj_get_obj_delete:
  "obj_get (obj_delete obj k) k' = (if k' = k then JUndefined else obj_get obj k')"
  by (simp add: obj_get_def map_of_obj_delete)

lemma falsy_key_skipped:
  assumes "\<not> truthy (obj_get obj k)"
  shows "checkIfKeysExist_loop E this pa del obj keys =
         checkIfKeysExist_loop E this pa del obj (removeAll k keys)"
  using assms
proof (induction keys arbitrary: obj)
  case Nil
  then show ?case by simp
next
  case (Cons key keys)
  have d: "\<not> truthy (obj_get (obj_delete obj key) k)"
    using Cons.prems by (simp add: obj_get_obj_delete)
  show ?case
    using Cons.IH[OF Cons.prems] Cons.IH[OF d] Cons.prems
    by (auto simp: Let_def split: option.splits)
qed

lemma falsy_key_kept:
  assumes "\<not> truthy (obj_get obj k)"
  shows "map_of (snd (checkIfKeysExist_loop E this pa del obj keys)) k = map_of obj k"
  using assms
proof (induction keys arbitrary: obj)
  case Nil
  then show ?case by simp
next
  case (Cons key keys)
  have d: "\<not> truthy (obj_get (obj_delete obj key) k)"
    using Cons.prems by (simp add: obj_get_obj_delete)
  have ne: "truthy (obj_get obj key) \<Longrightarrow> k \<noteq> key" using Cons.prems by auto
  show ?case
    using Cons.IH[OF Cons.prems] Cons.IH[OF d] Cons.prems ne
    by (auto simp: Let_def map_of_obj_delete split: option.splits)
qed

lemma falsy_value_key_skipped:
  assumes "\<not> truthy (obj_get obj k)"
  shows "checkIfKeysValueExist_loop E this pa del obj rc =
         checkIfKeysValueExist_loop E this pa del obj (filter (\<lambda>e. fst e \<noteq> k) rc)"
  using assms
proof (induction rc arbitrary: obj)
  case Nil
  then show ?case by simp
next
  case (Cons e rc)
  obtain key rv where e: "e = (key, rv)" by (cases e)
  have d: "\<not> truthy (obj_get (obj_delete obj key) k)"
    using Cons.prems by (simp add: obj_get_obj_delete)
  show ?case
    using Cons.IH[OF Cons.prems] Cons.IH[OF d] Cons.prems e
    by (auto simp: Let_def split: option.splits)
qed

lemma falsy_value_key_kept:
  assumes "\<not> truthy (obj_get obj k)"
  shows "map_of (snd (checkIfKeysValueExist_loop E this pa del obj rc)) k = map_of obj k"
  using assms
proof (induction rc arbitrary: obj)
  case Nil
  then show ?case by simp
next
  case (Cons e rc)
  obtain key rv where e: "e = (key, rv)" by (cases e)
  have d: "\<not> truthy (obj_get (obj_delete obj key) k)"
    using Cons.prems by (simp add: obj_get_obj_delete)
  have ne: "truthy (obj_get obj key) \<Longrightarrow> k \<noteq> key" using Cons.prems by auto
  show ?case
    using Cons.IH[OF Cons.prems] Cons.IH[OF d] Cons.prems ne e
    by (auto simp: Let_def map_of_obj_delete split: option.splits)
qed

lemma all_falsy_keys:
  assumes "\<forall>k \<in> set keys. \<not> truthy (obj_get obj k)"
  shows "checkIfKeysExist_loop E this pa del obj keys = (Inr (), obj)"
  using assms by (induction keys) auto

lemma all_falsy_values:
  assumes "\<forall>k \<in> fst ` set rc. \<not> truthy (obj_get obj k)"
  shows "checkIfKeysValueExist_loop E this pa del obj rc = (Inr (), obj)"
  using assms by (induction rc) auto


text \<open>
  C9. A denied key \<open>k\<close> whose value in the object is falsy (absent, \<open>undefined\<close>,
  \<open>null\<close>, \<open>0\<close>, the empty string or \<open>false\<close>) is ignored by both scans, in
  deletion mode and in rejection mode alike: the scan does what it would do without
  \<open>k\<close> in the denied list, and the object it leaves has \<open>k\<close> as it was. When every
  denied key is falsy in the object, the scan returns normally and the object is
  unchanged.
\<close>

theorem falsy_denied_key_ignored:
  assumes "\<not> truthy (obj_get obj k)"
  shows "BaseChain_checkIfKeysExist E this (Some obj) (Some keys) pa del =
           BaseChain_checkIfKeysExist E this (Some obj) (Some (removeAll k keys)) pa del
       \<and> map_option (\<lambda>ob. map_of ob k)
           (snd (BaseChain_checkIfKeysExist E this (Some obj) (Some keys) pa del)) =
           Some (map_of obj k)
       \<and> BaseChain_checkIfKeysValueExist E this (Some obj) (Some rc) pa del =
           BaseChain_checkIfKeysValueExist E this (Some obj)
             (Some (filter (\<lambda>e. fst e \<noteq> k) rc)) pa del
       \<and> map_option (\<lambda>ob. map_of ob k)
           (snd (BaseChain_checkIfKeysValueExist E this (Some obj) (Some rc) pa del)) =
           Some (map_of obj k)
       \<and> ((\<forall>k' \<in> set keys. \<not> truthy (obj_get obj k')) \<longrightarrow>
            BaseChain_checkIfKeysExist E this (Some obj) (Some keys) pa del = (Inr (), Some obj))
       \<and> ((\<forall>k' \<in> fst ` set rc. \<not> truthy (obj_get obj k')) \<longrightarrow>
            BaseChain_checkIfKeysValueExist E this (Some obj) (Some rc) pa del = (Inr (), Some obj))"
proof -
  have a1: "BaseChain_checkIfKeysExist E this (Some obj) (Some keys) pa del =
           BaseChain_checkIfKeysExist E this (Some obj) (Some (removeAll k keys)) pa del"
    using falsy_key_skipped [OF assms, of E this pa del keys]
    by (simp add: BaseChain_checkIfKeysExist_def)
  have a2: "map_option (\<lambda>ob. map_of ob k)
           (snd (BaseChain_checkIfKeysExist E this (Some obj) (Some keys) pa del)) =
           Some (map_of obj k)"
    using falsy_key_kept [OF assms, of E this pa del keys]
    by (cases "checkIfKeysExist_loop E this pa del obj keys")
       (simp add: BaseChain_checkIfKeysExist_def)
  have b1: "BaseChain_checkIfKeysValueExist E this (Some obj) (Some rc) pa del =
           BaseChain_checkIfKeysValueExist E this (Some obj)
             (Some (filter (\<lambda>e. fst e \<noteq> k) rc)) pa del"
    using falsy_value_key_skipped [OF assms, of E this pa del rc]
    by (simp add: BaseChain_checkIfKeysValueExist_def)
  have b2: "map_option (\<lambda>ob. map_of ob k)
           (snd (BaseChain_checkIfKeysValueExist E this (Some obj) (Some rc) pa del)) =
           Some (map_of obj k)"
    using falsy_value_key_kept [OF assms, of E this pa del rc]
    by (cases "checkIfKeysValueExist_loop E this pa del obj rc")
       (simp add: BaseChain_checkIfKeysValueExist_def)
  have c1: "(\<forall>k' \<in> set keys. \<not> truthy (obj_get obj k')) \<longrightarrow>
            BaseChain_checkIfKeysExist E this (Some obj) (Some keys) pa del = (Inr (), Some obj)"
    by (simp add: BaseChain_checkIfKeysExist_def all_falsy_keys)
  have c2: "(\<forall>k' \<in> fst ` set rc. \<not> truthy (obj_get obj k')) \<longrightarrow>
            BaseChain_checkIfKeysValueExist E this (Some obj) (Some rc) pa del = (Inr (), Some obj)"
    by (simp add: BaseChain_checkIfKeysValueExist_def all_falsy_values)
  from a1 a2 b1 b2 c1 c2 show ?thesis by blast
qed

theorem falsy_denied_key_ignored_witness:
  "\<not> truthy (obj_get [(''name'', JStr ''Ann''), (''role'', JStr []), (''tenant'', JNum 0)] ''role'')
   \<and> BaseChain_checkIfKeysExist sample_env (sample_chain ''Delete'')
        (Some [(''name'', JStr ''Ann''), (''role'', JStr []), (''tenant'', JNum 0)])
        (Some [''role'', ''tenant'']) None False =
      (Inr (), Some [(''name'', JStr ''Ann''), (''role'', JStr []), (''tenant'', JNum 0)])
   \<and> BaseChain_checkIfKeysValueExist sample_env (sample_chain ''Delete'')
        (Some [(''name'', JStr ''Ann''), (''role'', JStr []), (''tenant'', JNum 0)])
        (Some [(''role'', KVString []), (''tenant'', KVList [''0''])]) None False =
      (Inr (), Some [(''name'', JStr ''Ann''), (''role'', JStr []), (''tenant'', JNum 0)])"
proof -
  have h: "\<not> truthy (obj_get [(''name'', JStr ''Ann''), (''role'', JStr []), (''tenant'', JNum 0)] ''role'')"
    by (simp add: obj_get_def)
  have h1: "\<forall>k' \<in> set [''role'', ''tenant''].
              \<not> truthy (obj_get [(''name'', JStr ''Ann''), (''role'', JStr []), (''tenant'', JNum 0)] k')"
    by (simp add: obj_get_def)
  have h2: "\<forall>k' \<in> fst ` set [(''role'', KVString []), (''tenant'', KVList [''0''])].
              \<not> truthy (obj_get [(''name'', JStr ''Ann''), (''role'', JStr []), (''tenant'', JNum 0)] k')"
    by (simp add: obj_get_def)
  show ?thesis
    using h h1 h2 falsy_denied_key_ignored [OF h, of sample_env "sample_chain ''Delete''"
        "[''role'', ''tenant'']" None False "[(''role'', KVString []), (''tenant'', KVList [''0''])]"]
    by blast
qed

subsection \<open>Deletion mode\<close>

lemma delete_loop_keys:
  "checkIfKeysExist_loop E this pa True obj keys = (Inr (), remove_denied_keys keys obj)"
proof (induction keys arbitrary: obj)
  case Nil
  then show ?case by (simp add: remove_denied_keys_def)
next
  case (Cons key keys)
  show ?case
  proof (cases "truthy (obj_get obj key)")
    case True
    have "remove_denied_keys keys (obj_delete obj key) = remove_denied_keys (key # keys) obj"
      unfolding remove_denied_keys_def obj_delete_def[of obj key] filter_filter
      using True by (intro filter_cong) (auto simp: obj_get_obj_delete obj_delete_def[symmetric])
    with True Cons show ?thesis by simp
  next
    case False
    have "remove_denied_keys keys obj = remove_denied_keys (key # keys) obj"
      unfolding remove_denied_keys_def using False by (intro filter_cong) auto
    with False Cons show ?thesis by simp
  qed
qed

lemma delete_loop_values:
  "checkIfKeysValueExist_loop E this pa True obj rc = (Inr (), remove_denied_values rc obj)"
proof (induction rc arbitrary: obj)
  case Nil
  then show ?case by (simp add: remove_denied_values_def)
next
  case (Cons e rc)
  obtain key rv where e: "e = (key, rv)" by (cases e)
  show ?case
  proof (cases "truthy (obj_get obj key) \<and> value_match (obj_get obj key) rv")
    case True
    have "remove_denied_values rc (obj_delete obj key) = remove_denied_values ((key, rv) # rc) obj"
      unfolding remove_denied_values_def obj_delete_def[of obj key] filter_filter
      using True by (intro filter_cong) (auto simp: obj_get_obj_delete obj_delete_def[symmetric])
    with True Cons e show ?thesis by simp
  next
    case False
    have "remove_denied_values rc obj = remove_denied_values ((key, rv) # rc) obj"
      unfolding remove_denied_values_def using False by (intro filter_cong) auto
    with False Cons e show ?thesis by auto
  qed
qed

lemma scan_keys_delete:
  "scan_keys E this obj keys True =
     (Inr (), case keys of None \<Rightarrow> obj | Some ks \<Rightarrow> remove_denied_keys ks obj)"
  by (simp add: scan_keys_def BaseChain_checkIfKeysExist_def delete_loop_keys split: option.splits)

lemma scan_values_delete:
  "scan_values E this obj rc True =
     (Inr (), case rc of None \<Rightarrow> obj | Some r \<Rightarrow> remove_denied_values r obj)"
  by (simp add: scan_values_def BaseChain_checkIfKeysValueExist_def delete_loop_values split: option.splits)

lemma Create_keys_delete:
  "CreateChain_checkIfKeysExist E this ks pa True = (Inr (), this\<lparr>doc := remove_denied_keys ks (doc this)\<rparr>)"
  by (simp add: CreateChain_checkIfKeysExist_def BaseChain_checkIfKeysExist_def delete_loop_keys)

lemma Create_values_delete:
  "CreateChain_checkIfKeysValueExist E this rc pa True = (Inr (), this\<lparr>doc := remove_denied_values rc (doc this)\<rparr>)"
  by (simp add: CreateChain_checkIfKeysValueExist_def BaseChain_checkIfKeysValueExist_def delete_loop_values)

lemma Update_keys_delete:
  "UpdateChain_checkIfKeysExist E this ks pa True = (Inr (), this\<lparr>update_body := remove_denied_keys ks (update_body this)\<rparr>)"
  by (simp add: UpdateChain_checkIfKeysExist_def BaseChain_checkIfKeysExist_def delete_loop_keys)

lemma Update_values_delete:
  "UpdateChain_checkIfKeysValueExist E this rc pa True = (Inr (), this\<lparr>update_body := remove_denied_values rc (update_body this)\<rparr>)"
  by (simp add: UpdateChain_checkIfKeysValueExist_def BaseChain_checkIfKeysValueExist_def delete_loop_values)


lemma andThen_simps:
  "andThen (Inr x, s) f = f s" "andThen (Inl e, s) f = (Inl e, s)"
  by (simp_all add: andThen_def)

lemma policy_of_update:
  "query_opt (c\<lparr>doc := d\<rparr>) f = query_opt c f"
  "body_opt (c\<lparr>doc := d\<rparr>) f = body_opt c f"
  "query_opt (r\<lparr>read_filter := d\<rparr>) f = query_opt r f"
  "query_opt (u\<lparr>update_filter := d\<rparr>) f = query_opt u f"
  "body_opt (u\<lparr>update_filter := d\<rparr>) f = body_opt u f"
  "query_opt (u\<lparr>update_body := d\<rparr>) f = query_opt u f"
  "body_opt (u\<lparr>update_body := d\<rparr>) f = body_opt u f"
  by (simp_all add: query_opt_def body_opt_def endpoint_opt_def)

lemma Create_prePerform_eq:
  "CreateChain_prePerform E c =
     (if callback c = Some False then (Inl (PredicateNotSucceeded (callbackMsg c)), c)
      else CreateChain_validate E
             (c\<lparr>doc := strip_denied (body_opt c deniedKeys) (body_opt c deniedKeysValue) (doc c)\<rparr>))"
proof (cases "callback c = Some False")
  case True
  then show ?thesis
    by (simp add: CreateChain_prePerform_def BaseChain_prePerform_def andThen_simps)
next
  case False
  then have b: "BaseChain_prePerform c = Inr ()"
    by (auto simp: BaseChain_prePerform_def split: option.splits)
  show ?thesis
    using False
    by (cases "body_opt c deniedKeys"; cases "body_opt c deniedKeysValue")
       (simp_all add: CreateChain_prePerform_def b andThen_simps policy_of_update
          Create_keys_delete Create_values_delete strip_denied_def)
qed

lemma Read_prePerform_eq:
  "ReadChain_prePerform E r =
     (if callback r = Some False then (Inl (PredicateNotSucceeded (callbackMsg r)), r)
      else ReadChain_validate E
             (r\<lparr>read_filter := parseNestedObject E
                (strip_denied (query_opt r deniedKeys) (query_opt r deniedKeysValue) (read_filter r))\<rparr>))"
proof (cases "callback r = Some False")
  case True
  then show ?thesis
    by (simp add: ReadChain_prePerform_def BaseChain_prePerform_def andThen_simps)
next
  case False
  then have b: "BaseChain_prePerform r = Inr ()"
    by (auto simp: BaseChain_prePerform_def split: option.splits)
  show ?thesis
    using False
    by (cases "query_opt r deniedKeys"; cases "query_opt r deniedKeysValue")
       (simp_all add: ReadChain_prePerform_def b andThen_simps policy_of_update
          scan_keys_delete scan_values_delete strip_denied_def)
qed

lemma Update_prePerform_eq:
  "UpdateChain_prePerform E u =
     (if callback u = Some False then (Inl (PredicateNotSucceeded (callbackMsg u)), u)
      else andThen
             (UpdateChain_validate_query E
                (u\<lparr>update_filter :=
                     strip_denied (query_opt u deniedKeys) (query_opt u deniedKeysValue) (update_filter u),
                   update_body :=
                     strip_denied (body_opt u deniedKeys) (body_opt u deniedKeysValue) (update_body u)\<rparr>))
             (UpdateChain_validate_body E))"
proof (cases "callback u = Some False")
  case True
  then show ?thesis
    by (simp add: UpdateChain_prePerform_def BaseChain_prePerform_def andThen_simps)
next
  case False
  then have b: "BaseChain_prePerform u = Inr ()"
    by (auto simp: BaseChain_prePerform_def split: option.splits)
  show ?thesis
    using False
    by (cases "query_opt u deniedKeys"; cases "query_opt u deniedKeysValue";
        cases "body_opt u deniedKeys"; cases "body_opt u deniedKeysValue")
       (simp_all add: UpdateChain_prePerform_def b andThen_simps policy_of_update
          scan_keys_delete scan_values_delete Update_keys_delete Update_values_delete
          strip_denied_def)
qed

text \<open>
  C2, as the claim states it, fails for Create and Update. On the sample endpoint
  (denied body key \<open>role\<close>, a granted action set without \<open>Create:User:Role\<close> and
  \<open>Update:User:Role\<close>) a body with \<open>role: "admin"\<close> passes \<open>prePerform\<close> and leaves it
  without \<open>role\<close>: nothing is thrown and the body is not left untouched.
\<close>

theorem create_update_scan_deletes:
  "fst (CreateChain_prePerform sample_env sample_create) = Inr ()
   \<and> doc (snd (CreateChain_prePerform sample_env sample_create)) = [(''name'', JStr ''Ann'')]
   \<and> fst (UpdateChain_prePerform sample_env sample_update) = Inr ()
   \<and> update_body (snd (UpdateChain_prePerform sample_env sample_update)) = [(''name'', JStr ''Ann'')]"
proof -
  have c: "CreateChain_prePerform sample_env sample_create =
             CreateChain_validate sample_env (sample_create\<lparr>doc := [(''name'', JStr ''Ann'')]\<rparr>)"
    by (simp add: Create_prePerform_eq)
       (simp add: sample_create_def sample_chain_def BaseChain.defs CreateChain.defs
          body_opt_def endpoint_opt_def sample_endpoint_def sample_body_def sample_query_def
          strip_denied_def remove_denied_keys_def remove_denied_values_def obj_get_def
          value_match_def)
  have cv: "CreateChain_validate sample_env (sample_create\<lparr>doc := [(''name'', JStr ''Ann'')]\<rparr>) =
              (Inr (), sample_create\<lparr>doc := [(''name'', JStr ''Ann'')]\<rparr>)"
    by (simp add: sample_create_def sample_chain_def BaseChain.defs CreateChain.defs
          body_opt_def endpoint_opt_def sample_endpoint_def sample_body_def sample_query_def
          obj_get_def CreateChain_validate_def body_val_def name_schema_def
          validateDataSchema_def sample_env_def sample_ajv_def sample_property_errors_def
          sample_type_ok_def obj_delete_def nullish_or_def set_body_def)
  have u: "UpdateChain_prePerform sample_env sample_update =
             andThen (UpdateChain_validate_query sample_env
                        (sample_update\<lparr>update_body := [(''name'', JStr ''Ann'')]\<rparr>))
               (UpdateChain_validate_body sample_env)"
    by (simp add: Update_prePerform_eq)
       (simp add: sample_update_def sample_chain_def BaseChain.defs UpdateChain.defs
          body_opt_def query_opt_def endpoint_opt_def sample_endpoint_def sample_body_def
          sample_query_def strip_denied_def remove_denied_keys_def remove_denied_values_def
          obj_get_def value_match_def)
  have uq: "UpdateChain_validate_query sample_env
              (sample_update\<lparr>update_body := [(''name'', JStr ''Ann'')]\<rparr>) =
            (Inr (), sample_update\<lparr>update_body := [(''name'', JStr ''Ann'')]\<rparr>)"
    by (simp add: sample_update_def sample_chain_def BaseChain.defs UpdateChain.defs
          UpdateChain_validate_query_def query_val_def endpoint_opt_def sample_endpoint_def
          sample_query_def)
  have ub: "UpdateChain_validate_body sample_env
              (sample_update\<lparr>update_body := [(''name'', JStr ''Ann'')]\<rparr>) =
            (Inr (), sample_update\<lparr>update_body := [(''name'', JStr ''Ann'')]\<rparr>)"
    by (simp add: sample_update_def sample_chain_def BaseChain.defs UpdateChain.defs
          UpdateChain_validate_body_def body_val_def endpoint_opt_def sample_endpoint_def
          sample_body_def sample_query_def name_schema_def obj_get_def
          sample_env_def sample_ajv_def sample_property_errors_def sample_type_ok_def)
  show ?thesis
    by (simp add: c cv u uq ub andThen_simps)
qed

text \<open>
  C2, amended. In \<open>prePerform\<close> the denied-key and denied-value scanning runs in deletion
  mode for the Read chain and equally for the Create and Update chains: once the
  predicate has passed, the scans throw nothing and consult no action; the Read filter,
  the Update filter and body, and the Create document go on to schema validation
  without their truthy denied keys and without the keys holding a denied value.
\<close>

theorem prePerform_deletion_mode:
  "ReadChain_prePerform E r =
     (if callback r = Some False then (Inl (PredicateNotSucceeded (callbackMsg r)), r)
      else ReadChain_validate E
             (r\<lparr>read_filter := parseNestedObject E
                (strip_denied (query_opt r deniedKeys) (query_opt r deniedKeysValue) (read_filter r))\<rparr>))
   \<and> UpdateChain_prePerform E u =
     (if callback u = Some False then (Inl (PredicateNotSucceeded (callbackMsg u)), u)
      else andThen
             (UpdateChain_validate_query E
                (u\<lparr>update_filter :=
                     strip_denied (query_opt u deniedKeys) (query_opt u deniedKeysValue) (update_filter u),
                   update_body :=
                     strip_denied (body_opt u deniedKeys) (body_opt u deniedKeysValue) (update_body u)\<rparr>))
             (UpdateChain_validate_body E))
   \<and> CreateChain_prePerform E c =
     (if callback c = Some False then (Inl (PredicateNotSucceeded (callbackMsg c)), c)
      else CreateChain_validate E
             (c\<lparr>doc := strip_denied (body_opt c deniedKeys) (body_opt c deniedKeysValue) (doc c)\<rparr>))"
  using Read_prePerform_eq [of E r] Update_prePerform_eq [of E u] Create_prePerform_eq [of E c]
  by (rule conjI [OF _ conjI])

section \<open>Properties of the schema matcher\<close>


lemma findIndex_first:
  assumes "excludeFields data = Inr d" "j < length subs" "validate (subs ! j) d = None"
    "\<forall>m < j. validate (subs ! m) d \<noteq> None"
  shows "anyOf_findIndex validate data subs i errs =
           Inr (Some (i + j), if j = 0 then errs else validate (subs ! (j - 1)) d)"
  using assms
proof (induction subs arbitrary: i j errs)
  case Nil
  then show ?case by simp
next
  case (Cons s subs)
  show ?case
  proof (cases j)
    case 0
    with Cons.prems show ?thesis by simp
  next
    case (Suc j')
    from Cons.prems(4) Suc have "validate ((s # subs) ! 0) d \<noteq> None" by blast
    then obtain es where es: "validate s d = Some es" by auto
    have p: "j' < length subs" "validate (subs ! j') d = None"
      "\<forall>m < j'. validate (subs ! m) d \<noteq> None"
      using Cons.prems Suc by auto
    have "anyOf_findIndex validate data subs (Suc i) (Some es) =
            Inr (Some (Suc i + j'), if j' = 0 then Some es else validate (subs ! (j' - 1)) d)"
      using Cons.IH [where j = j' and i = "Suc i" and errs = "Some es"] Cons.prems(1) p
      by blast
    then show ?thesis
      using Cons.prems(1) es Suc by (cases j') auto
  qed
qed

text \<open>
  First match wins. When branch \<open>j\<close> validates and no earlier branch does, the result is
  valid; what the code then takes as default (options) is the branch's own declared
  default (options) when that is truthy, otherwise the fallback indexed by \<open>j\<close> when the
  fallback is a sequence (\<open>undefined\<close> beyond its end), otherwise the scalar fallback.
\<close>

lemma anyOf_first_match:
  assumes "js_prop schema ''anyOf'' = Inr (JArr subs)"
    and "excludeFields data = Inr d"
    and "j < length subs"
    and "validate (subs ! j) d = None"
    and "\<forall>m < j. validate (subs ! m) d \<noteq> None"
    and "js_prop (subs ! j) ''default'' = Inr dv"
    and "js_prop (subs ! j) ''options'' = Inr ov"
  shows "validateDataSchema validate data schema defaultData defaultOpt =
           Inr \<lparr>errors = (if j = 0 then None else validate (subs ! (j - 1)) d),
                defaultValue =
                  (if truthy dv then dv
                   else case defaultData of
                          JArr xs \<Rightarrow> if j < length xs then xs ! j else JUndefined
                        | _ \<Rightarrow> defaultData),
                defaultOption =
                  (if truthy ov then ov
                   else case defaultOpt of
                          JArr xs \<Rightarrow> if j < length xs then xs ! j else JUndefined
                        | _ \<Rightarrow> defaultOpt),
                isValid = True\<rparr>"
proof -
  have g: "getDefault v j = (case v of JArr xs \<Rightarrow> if j < length xs then xs ! j else JUndefined
                             | _ \<Rightarrow> v)" for v
    by (cases v) simp_all
  show ?thesis
    using assms findIndex_first [where validate = validate and data = data and d = d and j = j
        and subs = subs and i = 0 and errs = None]
    by (simp add: validateDataSchema_def g)
qed

lemma anyOf_first_match_example:
  "validateDataSchema sample_ajv (JObj [(''name'', JNum 5)]) anyOf_AB
     (JArr [JObj [(''a'', JNum 1)], JObj [(''b'', JNum 2)]]) (JObj [(''limit'', JNum 10)]) =
   Inr \<lparr>errors = Some [ErrorObject ''/name must be string''],
        defaultValue = JObj [(''b'', JNum 2)],
        defaultOption = JObj [(''limit'', JNum 10)],
        isValid = True\<rparr>"
proof -
  have 1: "js_prop anyOf_AB ''anyOf'' = Inr (JArr [schemaA, schemaB])"
    by (simp add: anyOf_AB_def obj_get_def)
  have 2: "excludeFields (JObj [(''name'', JNum 5)]) = Inr (JObj [(''name'', JNum 5)])"
    by (simp add: obj_delete_def)
  have 3: "(1::nat) < length [schemaA, schemaB]" by simp
  have 4: "sample_ajv ([schemaA, schemaB] ! 1) (JObj [(''name'', JNum 5)]) = None"
    by (simp add: schemaB_def sample_ajv_def sample_property_errors_def sample_type_ok_def
          obj_get_def)
  have a: "sample_ajv schemaA (JObj [(''name'', JNum 5)]) = Some [ErrorObject ''/name must be string'']"
    by (simp add: schemaA_def sample_ajv_def sample_property_errors_def sample_type_ok_def
          obj_get_def)
  have 5: "\<forall>m < (1::nat). sample_ajv ([schemaA, schemaB] ! m) (JObj [(''name'', JNum 5)]) \<noteq> None"
    using a by simp
  have 6: "js_prop ([schemaA, schemaB] ! 1) ''default'' = Inr JUndefined"
    by (simp add: schemaB_def obj_get_def)
  have 7: "js_prop ([schemaA, schemaB] ! 1) ''options'' = Inr JUndefined"
    by (simp add: schemaB_def obj_get_def)
  show ?thesis
    using anyOf_first_match [where validate = sample_ajv, OF 1 2 3 4 5 6 7,
        of "JArr [JObj [(''a'', JNum 1)], JObj [(''b'', JNum 2)]]" "JObj [(''limit'', JNum 10)]"] a
    by simp
qed

text \<open>
  C3 fails on the code where the winning branch declares a falsy default (or options).
  The schema \<open>{type: "number", default: 0}\<close> accepts the data \<open>5\<close>. As the only branch of
  an any-of, it wins, its declared default \<open>0\<close> is present, and the result carries the
  fallback \<open>7\<close> instead: the any-of path selects with \<open>x ? x : fallback\<close>. The same
  schema on the single-schema path, which selects with \<open>x ?? fallback\<close>, keeps its
  declared \<open>0\<close>; and a branch that declares the truthy default \<open>3\<close> keeps it on the
  any-of path.
\<close>

theorem falsy_branch_default_ignored:
  "validateDataSchema sample_ajv (JNum 5)
     (JObj [(''anyOf'', JArr [JObj [(''type'', JStr ''number''), (''default'', JNum 0)]])])
     (JNum 7) JUndefined =
   Inr \<lparr>errors = None, defaultValue = JNum 7, defaultOption = JUndefined, isValid = True\<rparr>
   \<and> validateDataSchema sample_ajv (JNum 5)
     (JObj [(''type'', JStr ''number''), (''default'', JNum 0)])
     (JNum 7) JUndefined =
   Inr \<lparr>errors = None, defaultValue = JNum 0, defaultOption = JUndefined, isValid = True\<rparr>
   \<and> validateDataSchema sample_ajv (JNum 5)
     (JObj [(''anyOf'', JArr [JObj [(''type'', JStr ''number''), (''default'', JNum 3)]])])
     (JNum 7) JUndefined =
   Inr \<lparr>errors = None, defaultValue = JNum 3, defaultOption = JUndefined, isValid = True\<rparr>"
  by (simp add: validateDataSchema_def obj_get_def sample_ajv_def nullish_or_def)



section \<open>Properties of the chains\<close>

lemma perform_after_throw:
  assumes "fst (CreateChain_prePerform E c) = Inl e"
  shows "fst (CreateChain_perform E c opts) = Inl e"
  using assms by (cases "CreateChain_prePerform E c") (simp add: CreateChain_perform_def)

lemma validate_mismatch:
  assumes "truthy (body_val c schemas)"
    and "validateDataSchema (ajv E) (JObj (doc c)) (body_val c schemas) (body_val c default_data)
           JUndefined = Inr res"
    and "\<not> isValid res"
  shows "CreateChain_validate E c = (Inl (RestrictedData (errors res)), c)"
  using assms by (simp add: CreateChain_validate_def)

lemma body_val_doc: "body_val (c\<lparr>doc := d\<rparr>) f = body_val c f"
  by (simp add: body_val_def endpoint_opt_def)

text \<open>
  C6. A Create chain whose endpoint declares body schemas, with the predicate (if any)
  passed: when the document, as the denied-key scan leaves it, does not match the
  schemas, \<open>prePerform\<close> throws the 403 error titled \<open>Restricted Data\<close> with the
  validator's errors, and \<open>perform\<close> ends with that error: its outcome is the error,
  not a descriptor. The witness is the schema requiring a string \<open>name\<close> and the
  document \<open>{name: 123}\<close>.
\<close>

theorem create_schema_mismatch_throws:
  assumes "callback c \<noteq> Some False"
    and "truthy (body_val c schemas)"
    and "validateDataSchema (ajv E)
           (JObj (strip_denied (body_opt c deniedKeys) (body_opt c deniedKeysValue) (doc c)))
           (body_val c schemas) (body_val c default_data) JUndefined = Inr res"
    and "\<not> isValid res"
  shows "fst (CreateChain_prePerform E c) =
           Inl (StatusError 403 ''Restricted Data''
                  ''The data you provided violates some of our policies. Check it or consulate support.''
                  (errors res))
       \<and> fst (CreateChain_perform E c opts) =
           Inl (StatusError 403 ''Restricted Data''
                  ''The data you provided violates some of our policies. Check it or consulate support.''
                  (errors res))"
proof -
  let ?c = "c\<lparr>doc := strip_denied (body_opt c deniedKeys) (body_opt c deniedKeysValue) (doc c)\<rparr>"
  have "CreateChain_validate E ?c = (Inl (RestrictedData (errors res)), ?c)"
    using assms(2-4) by (intro validate_mismatch) (simp_all add: body_val_doc)
  then have "fst (CreateChain_prePerform E c) = Inl (RestrictedData (errors res))"
    using assms(1) by (simp add: Create_prePerform_eq)
  then show ?thesis
    using perform_after_throw by (simp add: RestrictedData_def)
qed

theorem create_schema_mismatch_throws_witness:
  "fst (CreateChain_perform sample_env (sample_create\<lparr>doc := [(''name'', JNum 123)]\<rparr>) JUndefined) =
     Inl (StatusError 403 ''Restricted Data''
            ''The data you provided violates some of our policies. Check it or consulate support.''
            (Some [ErrorObject ''/name must be string'']))"
proof -
  let ?c = "sample_create\<lparr>doc := [(''name'', JNum 123)]\<rparr>"
  have 1: "callback ?c \<noteq> Some False"
    by (simp add: sample_create_def sample_chain_def BaseChain.defs CreateChain.defs)
  have s: "body_val ?c schemas = name_schema" "body_val ?c default_data = JUndefined"
    "body_opt ?c deniedKeys = Some [''role'', ''tenant'']"
    "body_opt ?c deniedKeysValue = Some [(''status'', KVList [''banned''])]"
    "doc ?c = [(''name'', JNum 123)]"
    by (simp_all add: sample_create_def sample_chain_def BaseChain.defs CreateChain.defs
          body_val_def body_opt_def endpoint_opt_def sample_endpoint_def sample_body_def
          sample_query_def)
  have 2: "truthy (body_val ?c schemas)" by (simp add: s name_schema_def)
  have 3: "validateDataSchema (ajv sample_env)
           (JObj (strip_denied (body_opt ?c deniedKeys) (body_opt ?c deniedKeysValue) (doc ?c)))
           (body_val ?c schemas) (body_val ?c default_data) JUndefined =
           Inr \<lparr>errors = Some [ErrorObject ''/name must be string''], defaultValue = JUndefined,
                defaultOption = JUndefined, isValid = False\<rparr>"
    unfolding s
    by (simp add: strip_denied_def remove_denied_keys_def remove_denied_values_def obj_get_def
          value_match_def validateDataSchema_def name_schema_def sample_env_def sample_ajv_def
          sample_property_errors_def sample_type_ok_def obj_delete_def)
  show ?thesis
    using create_schema_mismatch_throws [OF 1 2 3, of JUndefined] by simp
qed

subsection \<open>Which checks can throw a 401\<close>

lemma throws_401_simps [simp]:
  "throws_401 (Inr x) = False"
  "throws_401 (Inl e) = (status e = Some 401)"
  by (simp_all add: throws_401_def)

lemma visitorVisit_401:
  "throws_401 (visitorVisit this canVisit) = (\<not> canVisit \<and> user_type (user this) = Some Visitor)"
  by (simp add: visitorVisit_def Unauthorized_def)

lemma checkUser_no_401: "\<not> throws_401 (checkUser t a)"
  by (simp add: checkUser_def InvalidAccount_def)

lemma checkIfUserIs_no_401: "\<not> throws_401 (checkIfUserIs this users)"
  by (simp add: checkIfUserIs_def InvalidAccount_def)

lemma base_prePerform_no_401: "\<not> throws_401 (BaseChain_prePerform this)"
  by (simp add: BaseChain_prePerform_def PredicateNotSucceeded_def split: option.splits)

lemma checkRateLimit_no_401: "\<not> throws_401 (fst (checkRateLimit now p i c w m))"
  by (simp add: checkRateLimit_def TooManyRequest_def Let_def
        split: option.splits cval.splits)

lemma checkAction_no_401:
  assumes "\<forall>a g v e. validateAction E a g v = Some e \<longrightarrow> status e \<noteq> Some 401"
  shows "\<not> throws_401 (fst (checkAction E this b))"
  using assms by (auto simp: checkAction_def Let_def split: option.splits)

lemma keys_loop_no_401:
  assumes "\<forall>a g v e. validateAction E a g v = Some e \<longrightarrow> status e \<noteq> Some 401"
  shows "\<not> throws_401 (fst (checkIfKeysExist_loop E this pa del obj keys))"
  using assms by (induction keys arbitrary: obj) (auto simp: Let_def split: option.splits)

lemma values_loop_no_401:
  assumes "\<forall>a g v e. validateAction E a g v = Some e \<longrightarrow> status e \<noteq> Some 401"
  shows "\<not> throws_401 (fst (checkIfKeysValueExist_loop E this pa del obj rc))"
proof (induction rc arbitrary: obj)
  case Nil
  then show ?case by simp
next
  case (Cons e rc)
  obtain key rv where e: "e = (key, rv)" by (cases e)
  show ?case
    using Cons.IH [of obj] Cons.IH [of "obj_delete obj key"] assms e
    by (auto simp: Let_def split: option.splits)
qed

lemma keys_no_401:
  assumes "\<forall>a g v e. validateAction E a g v = Some e \<longrightarrow> status e \<noteq> Some 401"
  shows "\<not> throws_401 (fst (BaseChain_checkIfKeysExist E this obj keys pa del))"
proof -
  have "fst (case r of (x, ob') \<Rightarrow> (x, Some ob')) = fst r" for r :: "unit result \<times> jsobject"
    by (cases r) simp
  then show ?thesis
    using keys_loop_no_401 [OF assms, of this pa del]
    by (simp add: BaseChain_checkIfKeysExist_def split: option.splits)
qed

lemma values_no_401:
  assumes "\<forall>a g v e. validateAction E a g v = Some e \<longrightarrow> status e \<noteq> Some 401"
  shows "\<not> throws_401 (fst (BaseChain_checkIfKeysValueExist E this obj rc pa del))"
proof -
  have "fst (case r of (x, ob') \<Rightarrow> (x, Some ob')) = fst r" for r :: "unit result \<times> jsobject"
    by (cases r) simp
  then show ?thesis
    using values_loop_no_401 [OF assms, of this pa del]
    by (simp add: BaseChain_checkIfKeysValueExist_def split: option.splits)
qed

lemma findIndex_TypeError:
  "anyOf_findIndex validate data subs i errs = Inl e \<Longrightarrow> e = TypeError"
  by (induction subs arbitrary: i errs)
     (auto split: sum.splits option.splits elim: excludeFields.elims)

lemma js_prop_TypeError: "js_prop v n = Inl e \<Longrightarrow> e = TypeError"
  by (cases v) auto

lemma excludeFields_TypeError: "excludeFields v = Inl e \<Longrightarrow> e = TypeError"
  by (cases v) auto

lemma validateDataSchema_TypeError:
  "validateDataSchema validate data schema dd dopt = Inl e \<Longrightarrow> e = TypeError"
  by (auto simp: validateDataSchema_def
        split: sum.splits if_splits jsval.splits option.splits prod.splits
        dest: findIndex_TypeError js_prop_TypeError excludeFields_TypeError)

lemma validateDataSchema_no_401: "\<not> throws_401 (validateDataSchema validate data schema dd dopt)"
  using validateDataSchema_TypeError [of validate data schema dd dopt]
  by (cases "validateDataSchema validate data schema dd dopt") auto


lemma andThen_no_401:
  assumes "\<not> throws_401 (fst r)" "\<And>s. \<not> throws_401 (fst (f s))"
  shows "\<not> throws_401 (fst (andThen r f))"
  using assms by (cases r) (auto simp: andThen_def split: sum.splits)

lemma Read_validate_no_401: "\<not> throws_401 (fst (ReadChain_validate E this))"
  by (auto simp: ReadChain_validate_def split: sum.splits option.splits list.splits
        dest: validateDataSchema_TypeError)

lemma Delete_validate_no_401: "\<not> throws_401 (fst (DeleteChain_validate E this))"
  by (auto simp: DeleteChain_validate_def split: sum.splits dest: validateDataSchema_TypeError)

lemma Create_validate_no_401: "\<not> throws_401 (fst (CreateChain_validate E this))"
  by (auto simp: CreateChain_validate_def RestrictedData_def split: sum.splits option.splits
        dest: validateDataSchema_TypeError)

lemma Update_validate_query_no_401: "\<not> throws_401 (fst (UpdateChain_validate_query E this))"
  by (auto simp: UpdateChain_validate_query_def split: option.splits)

lemma Update_validate_body_no_401: "\<not> throws_401 (fst (UpdateChain_validate_body E this))"
  by (auto simp: UpdateChain_validate_body_def split: option.splits)

lemma Read_prePerform_no_401: "\<not> throws_401 (fst (ReadChain_prePerform E r))"
  by (simp add: Read_prePerform_eq Read_validate_no_401 PredicateNotSucceeded_def)

lemma Create_prePerform_no_401: "\<not> throws_401 (fst (CreateChain_prePerform E c))"
  by (simp add: Create_prePerform_eq Create_validate_no_401 PredicateNotSucceeded_def)

lemma Update_prePerform_no_401: "\<not> throws_401 (fst (UpdateChain_prePerform E u))"
  by (simp add: Update_prePerform_eq PredicateNotSucceeded_def andThen_no_401
        Update_validate_query_no_401 Update_validate_body_no_401)

lemma scan_keys_no_401:
  assumes "\<forall>a g v e. validateAction E a g v = Some e \<longrightarrow> status e \<noteq> Some 401"
  shows "\<not> throws_401 (fst (scan_keys E this obj keys del))"
proof -
  have "fst (case r of (x, ob') \<Rightarrow> (x, g ob')) = fst r" for r :: "unit result \<times> jsobject option"
    and g :: "jsobject option \<Rightarrow> jsobject"
    by (cases r) simp
  moreover have "\<not> throws_401 (fst (BaseChain_checkIfKeysExist E this (Some obj) (Some ks) None del))"
    for ks
    using keys_no_401 [OF assms, of this "Some obj" "Some ks" None del] .
  ultimately show ?thesis
    by (simp add: scan_keys_def split: option.splits)
qed

lemma scan_values_no_401:
  assumes "\<forall>a g v e. validateAction E a g v = Some e \<longrightarrow> status e \<noteq> Some 401"
  shows "\<not> throws_401 (fst (scan_values E this obj rc del))"
proof -
  have "fst (case r of (x, ob') \<Rightarrow> (x, g ob')) = fst r" for r :: "unit result \<times> jsobject option"
    and g :: "jsobject option \<Rightarrow> jsobject"
    by (cases r) simp
  moreover have "\<not> throws_401 (fst (BaseChain_checkIfKeysValueExist E this (Some obj) (Some r) None del))"
    for r
    using values_no_401 [OF assms, of this "Some obj" "Some r" None del] .
  ultimately show ?thesis
    by (simp add: scan_values_def split: option.splits)
qed

lemma Delete_prePerform_no_401:
  assumes "\<forall>a g v e. validateAction E a g v = Some e \<longrightarrow> status e \<noteq> Some 401"
  shows "\<not> throws_401 (fst (DeleteChain_prePerform E d))"
proof -
  have f: "fst (case r of (x, ob) \<Rightarrow> (x, g ob)) = fst r" for r :: "unit result \<times> jsobject"
    and g :: "jsobject \<Rightarrow> DeleteChain"
    by (cases r) simp
  show ?thesis
    unfolding DeleteChain_prePerform_def
    by (intro andThen_no_401)
       (simp_all add: f base_prePerform_no_401 scan_keys_no_401 [OF assms]
          scan_values_no_401 [OF assms] Delete_validate_no_401)
qed

lemma sum_case_401:
  assumes "throws_401 (case r of Inl e \<Rightarrow> Inl e | Inr x \<Rightarrow> k x)"
  shows "throws_401 r \<or> (\<exists>x. r = Inr x \<and> throws_401 (k x))"
  using assms by (cases r) auto

lemma constructor_401:
  assumes "\<forall>a g v e. validateAction E a g v = Some e \<longrightarrow> status e \<noteq> Some 401"
    and "throws_401 (fst (BaseChain_constructor E now u p pre ba cache ip'))"
  shows "fst (BaseChain_constructor E now u p pre ba cache ip') = Inl Unauthorized
       \<and> user_type u = Some Visitor"
proof -
  define this :: BaseChain where "this = \<lparr>user = u, path = p, prefix = pre, baseAction = ba,
                  ip = ip', endpoint = (case level u of None \<Rightarrow> None | Some l \<Rightarrow> endpoints l p),
                  actions = (case level u of
                        None \<Rightarrow> []
                      | Some l \<Rightarrow> (case level_actions l of None \<Rightarrow> [] | Some a \<Rightarrow> a)),
                  callback = None, callbackMsg = None\<rparr>"
  define limited where "limited = (case endpoint_opt this rateLimit of
               Some rl \<Rightarrow>
                 if cache \<noteq> None \<and> ip' \<noteq> None
                 then checkRateLimit now p ip' cache (ttl rl) (max_rl rl)
                 else (Inr (), cache)
             | None \<Rightarrow> (Inr (), cache))"
  define act where "act = (if endpoint_opt this shouldCheckAction \<noteq> Some False
               then checkAction E this (str_or (endpoint_opt this endpoint_baseAction) ba)
               else (Inr (), this))"
  define vis where "vis = (if \<not> (case endpoint this of None \<Rightarrow> False | Some e \<Rightarrow> canVisitorVisit e)
               then visitorVisit this False else Inr ())"
  define rest where "rest = (case act of
            (Inl e, _) \<Rightarrow> Inl e
          | (Inr _, this1) \<Rightarrow>
        (case endpoint_opt this1 allowedUsers of
            Some (u # us) \<Rightarrow>
              (case checkIfUserIs this1 (u # us) of
                 Inl e \<Rightarrow> Inl e
               | Inr _ \<Rightarrow> Inr this1)
          | _ \<Rightarrow> Inr this1))"
  have l: "\<not> throws_401 (fst limited)"
    using checkRateLimit_no_401 by (simp add: limited_def split: option.splits)
  have a: "\<not> throws_401 (fst act)"
    using checkAction_no_401 [OF assms(1), of this "str_or (endpoint_opt this endpoint_baseAction) ba"]
    by (simp add: act_def)
  have ci: "checkIfUserIs t us = Inl e \<Longrightarrow> status e \<noteq> Some 401" for t :: BaseChain and us e
    by (auto simp: checkIfUserIs_def InvalidAccount_def split: if_splits)
  have r: "\<not> throws_401 rest"
    using a by (cases act) (auto simp: rest_def split: sum.splits option.splits list.splits dest: ci)
  have v: "vis = Inl e \<Longrightarrow> e = Unauthorized \<and> user_type u = Some Visitor" for e
    by (auto simp: vis_def visitorVisit_def this_def split: if_splits)
  have c: "fst (BaseChain_constructor E now u p pre ba cache ip') =
      (case fst limited of
            Inl e \<Rightarrow> Inl e
          | Inr _ \<Rightarrow> (case vis of Inl e \<Rightarrow> Inl e | Inr _ \<Rightarrow> rest))"
    unfolding BaseChain_constructor_def Let_def fst_conv rest_def vis_def act_def limited_def this_def
    by simp
  from assms(2) l have 1: "\<exists>x. fst limited = Inr x \<and> throws_401 (case vis of Inl e \<Rightarrow> Inl e | Inr _ \<Rightarrow> rest)"
    unfolding c by (auto dest: sum_case_401)
  then obtain e where e: "vis = Inl e" "status e = Some 401"
    using r by (cases vis) auto
  with v [OF e(1)] 1 show ?thesis
    unfolding c by auto
qed

text \<open>
  C8. \<open>visitorVisit(canVisit)\<close> throws the 401 error \<open>Unauthorized\<close> exactly when
  \<open>canVisit\<close> is false and the user's type is the visitor type, and returns otherwise.
  No other check of the chain throws a 401: not \<open>checkUser\<close>, \<open>checkIfUserIs\<close>, the
  predicate check, the rate limiter, the schema matcher, nor the \<open>prePerform\<close> of any
  chain; and, given that the action validator (whose code is elsewhere) throws no 401,
  not \<open>checkAction\<close> nor the scans either, so a 401 from the constructor is the visitor
  check's \<open>Unauthorized\<close> on a visitor.
\<close>

theorem visitorVisit_only_401:
  assumes "\<forall>a g v e. validateAction E a g v = Some e \<longrightarrow> status e \<noteq> Some 401"
  shows "(visitorVisit this canVisit = Inl Unauthorized) =
           (\<not> canVisit \<and> user_type (user this) = Some Visitor)
       \<and> (visitorVisit this canVisit = Inr ()) =
           (\<not> (\<not> canVisit \<and> user_type (user this) = Some Visitor))
       \<and> status Unauthorized = Some 401
       \<and> \<not> throws_401 (checkUser t allowed)
       \<and> \<not> throws_401 (checkIfUserIs this users)
       \<and> \<not> throws_401 (BaseChain_prePerform this)
       \<and> \<not> throws_401 (fst (checkRateLimit now p i cache w m))
       \<and> \<not> throws_401 (validateDataSchema validate dat schema dd dopt)
       \<and> \<not> throws_401 (fst (checkAction E this b))
       \<and> \<not> throws_401 (fst (BaseChain_checkIfKeysExist E this obj keys pa del))
       \<and> \<not> throws_401 (fst (BaseChain_checkIfKeysValueExist E this obj rc pa del))
       \<and> \<not> throws_401 (fst (ReadChain_prePerform E rd))
       \<and> \<not> throws_401 (fst (UpdateChain_prePerform E up))
       \<and> \<not> throws_401 (fst (CreateChain_prePerform E cr))
       \<and> \<not> throws_401 (fst (DeleteChain_prePerform E dl))
       \<and> (throws_401 (fst (BaseChain_constructor E now u p pre ba cache i)) \<longrightarrow>
            fst (BaseChain_constructor E now u p pre ba cache i) = Inl Unauthorized
            \<and> user_type u = Some Visitor)"
proof -
  have v1: "(visitorVisit this canVisit = Inl Unauthorized) =
           (\<not> canVisit \<and> user_type (user this) = Some Visitor)"
    by (simp add: visitorVisit_def)
  have v2: "(visitorVisit this canVisit = Inr ()) =
           (\<not> (\<not> canVisit \<and> user_type (user this) = Some Visitor))"
    by (simp add: visitorVisit_def)
  have v3: "status Unauthorized = Some 401"
    by (simp add: Unauthorized_def)
  have c: "throws_401 (fst (BaseChain_constructor E now u p pre ba cache i)) \<longrightarrow>
            fst (BaseChain_constructor E now u p pre ba cache i) = Inl Unauthorized
            \<and> user_type u = Some Visitor"
    using constructor_401 [OF assms] by blast
  show ?thesis
    using v1 v2 v3 c checkUser_no_401 [of t allowed] checkIfUserIs_no_401 [of this users]
      base_prePerform_no_401 [of this] checkRateLimit_no_401 [of now p i cache w m]
      validateDataSchema_no_401 [of validate dat schema dd dopt]
      checkAction_no_401 [OF assms, of this b]
      keys_no_401 [OF assms, of this obj keys pa del]
      values_no_401 [OF assms, of this obj rc pa del]
      Read_prePerform_no_401 [of E rd] Update_prePerform_no_401 [of E up]
      Create_prePerform_no_401 [of E cr] Delete_prePerform_no_401 [OF assms, of dl]
    by blast
qed

theorem visitorVisit_only_401_witness:
  "visitorVisit (sample_chain ''Read''\<lparr>user := sample_visitor\<rparr>) False = Inl Unauthorized
   \<and> visitorVisit (sample_chain ''Read'') False = Inr ()
   \<and> visitorVisit (sample_chain ''Read''\<lparr>user := sample_visitor\<rparr>) True = Inr ()
   \<and> status Unauthorized = Some 401
   \<and> \<not> throws_401 (fst (checkAction sample_env (sample_chain ''Delete'') None))
   \<and> \<not> throws_401 (fst (DeleteChain_prePerform sample_env sample_delete))"
proof -
  have h: "\<forall>a g v e. validateAction sample_env a g v = Some e \<longrightarrow> status e \<noteq> Some 401"
    by (auto simp: sample_env_def sample_validateAction_def split: if_splits)
  have u: "user_type (user (sample_chain ''Read''\<lparr>user := sample_visitor\<rparr>)) = Some Visitor"
    "user_type (user (sample_chain ''Read'')) \<noteq> Some Visitor"
    by (simp_all add: sample_chain_def sample_visitor_def sample_user_def)
  have a: "visitorVisit (sample_chain ''Read''\<lparr>user := sample_visitor\<rparr>) False = Inl Unauthorized"
    using u visitorVisit_only_401 [OF h, where this = "sample_chain ''Read''\<lparr>user := sample_visitor\<rparr>"
        and canVisit = False, THEN conjunct1]
    by simp
  have b: "visitorVisit (sample_chain ''Read'') False = Inr ()"
    using u visitorVisit_only_401 [OF h, where this = "sample_chain ''Read''" and canVisit = False,
        THEN conjunct2, THEN conjunct1]
    by simp
  have c: "visitorVisit (sample_chain ''Read''\<lparr>user := sample_visitor\<rparr>) True = Inr ()"
    using u visitorVisit_only_401 [OF h, where this = "sample_chain ''Read''\<lparr>user := sample_visitor\<rparr>"
        and canVisit = True, THEN conjunct2, THEN conjunct1]
    by simp
  have d: "status Unauthorized = Some 401"
    using visitorVisit_only_401 [OF h, where this = "sample_chain ''Read''", THEN conjunct2, THEN conjunct2, THEN conjunct1] .
  have e: "\<not> throws_401 (fst (checkAction sample_env (sample_chain ''Delete'') None))"
    using visitorVisit_only_401 [OF h, where this = "sample_chain ''Delete''" and b = None,
        THEN conjunct2, THEN conjunct2, THEN conjunct2, THEN conjunct2, THEN conjunct2, THEN conjunct2, THEN conjunct2, THEN conjunct2, THEN conjunct1] .
  have f: "\<not> throws_401 (fst (DeleteChain_prePerform sample_env sample_delete))"
    using visitorVisit_only_401 [OF h, where this = "sample_chain ''Delete''" and dl = sample_delete,
        THEN conjunct2, THEN conjunct2, THEN conjunct2, THEN conjunct2, THEN conjunct2, THEN conjunct2, THEN conjunct2, THEN conjunct2, THEN conjunct2, THEN conjunct2, THEN conjunct2, THEN conjunct2, THEN conjunct2, THEN conjunct2, THEN conjunct1] .
  from a b c d e f show ?thesis by simp
qed

subsection \<open>Substituting the current user\<close>

lemma cloneDeepWith_user_substitutes:
  "cloneDeepWith_user (Some uid) stringify dat =
     substituteIdentity dat ''*current_user*'' (if stringify then JStr uid else JId uid)"
proof (induction dat)
  case (JArr xs)
  then show ?case by (simp cong: map_cong)
next
  case (JObj ps)
  have "map (map_prod id (cloneDeepWith_user (Some uid) stringify)) ps =
        map (map_prod id (\<lambda>x. substituteIdentity x ''*current_user*''
                                  (if stringify then JStr uid else JId uid))) ps"
  proof (rule map_cong [OF refl])
    fix p assume p: "p \<in> set ps"
    obtain k v where kv: "p = (k, v)" by (cases p)
    have "cloneDeepWith_user (Some uid) stringify v =
          substituteIdentity v ''*current_user*'' (if stringify then JStr uid else JId uid)"
      using JObj [of p v] p kv by simp
    then show "map_prod id (cloneDeepWith_user (Some uid) stringify) p =
               map_prod id (\<lambda>x. substituteIdentity x ''*current_user*''
                                    (if stringify then JStr uid else JId uid)) p"
      using kv by simp
  qed
  then show ?case by simp
qed (simp_all add: current_user_value_def)

lemma repr_mono: "repr s v t \<Longrightarrow> repr (s @ e) v t"
proof (induction rule: repr.induct)
  case (7 a s vs xs)
  then show ?case
    by (auto intro!: repr.intros(7) simp: nth_append elim: list_all2_mono)
next
  case (8 a s qs ps)
  then show ?case
    by (auto intro!: repr.intros(8) simp: nth_append elim: list_all2_mono)
qed (auto intro: repr.intros)

lemma fold_max_ge: "(m::nat) \<le> fold max ns m"
  by (induction ns arbitrary: m) (auto intro: order_trans [OF max.cobounded2])

lemma fold_max_mem: "(n::nat) \<in> set ns \<Longrightarrow> n \<le> fold max ns m"
proof (induction ns arbitrary: m)
  case Nil
  then show ?case by simp
next
  case (Cons a ns)
  then show ?case
    using fold_max_ge [of "max a m" ns] by auto
qed

lemma depth_elem: "x \<in> set xs \<Longrightarrow> depth x < depth (JArr xs)"
  using fold_max_mem [of "depth x" "map depth xs" 0] by (simp add: less_Suc_eq_le)

lemma depth_prop: "p \<in> set ps \<Longrightarrow> depth (snd p) < depth (JObj ps)"
  using fold_max_mem [of "depth (snd p)" "map (\<lambda>p. depth (snd p)) ps" 0]
  by (simp add: less_Suc_eq_le)

lemma fresh_mono: "fresh k v \<Longrightarrow> j \<le> k \<Longrightarrow> fresh j v"
  by (auto simp: fresh_def split: hval.splits)

lemma fresh_cells_mono: "fresh_cells k e \<Longrightarrow> j \<le> k \<Longrightarrow> fresh_cells j e"
  by (auto simp: fresh_cells_def list_all_iff intro: fresh_mono)

lemma fresh_cells_append: "fresh_cells k (e1 @ e2) = (fresh_cells k e1 \<and> fresh_cells k e2)"
  by (simp add: fresh_cells_def)

lemma clone_list_ok:
  assumes "\<And>x s v. x \<in> set xs \<Longrightarrow> repr s v x \<Longrightarrow>
             \<exists>v' e. f s v = Some (v', s @ e) \<and> repr (s @ e) v' (g x)
                    \<and> fresh (length s) v' \<and> fresh_cells (length s) e"
    and "list_all2 (repr s) vs xs"
  shows "\<exists>vs' e. clone_list f s vs = Some (vs', s @ e) \<and> list_all2 (repr (s @ e)) vs' (map g xs)
                 \<and> list_all (fresh (length s)) vs' \<and> fresh_cells (length s) e"
  using assms
proof (induction xs arbitrary: s vs)
  case Nil
  then show ?case by (auto simp: fresh_cells_def)
next
  case (Cons x xs)
  from Cons.prems(2) obtain v vs0 where vs: "vs = v # vs0" "repr s v x" "list_all2 (repr s) vs0 xs"
    by (auto simp: list_all2_Cons2)
  from Cons.prems(1) [of x s v] vs(2)
  obtain v' e1 where 1: "f s v = Some (v', s @ e1)" "repr (s @ e1) v' (g x)"
      "fresh (length s) v'" "fresh_cells (length s) e1"
    by auto
  have r: "list_all2 (repr (s @ e1)) vs0 xs"
    using vs(3) by (auto elim: list_all2_mono intro: repr_mono)
  have "\<exists>vs' e. clone_list f (s @ e1) vs0 = Some (vs', (s @ e1) @ e)
          \<and> list_all2 (repr ((s @ e1) @ e)) vs' (map g xs)
          \<and> list_all (fresh (length (s @ e1))) vs' \<and> fresh_cells (length (s @ e1)) e"
    using Cons.prems(1) by (intro Cons.IH [OF _ r]) auto
  then obtain vs' e2 where 2: "clone_list f (s @ e1) vs0 = Some (vs', (s @ e1) @ e2)"
      "list_all2 (repr ((s @ e1) @ e2)) vs' (map g xs)"
      "list_all (fresh (length (s @ e1))) vs'" "fresh_cells (length (s @ e1)) e2"
    by auto
  have a: "clone_list f s vs = Some (v' # vs', s @ (e1 @ e2))"
    using vs(1) 1(1) 2(1) by simp
  have b: "list_all2 (repr (s @ (e1 @ e2))) (v' # vs') (map g (x # xs))"
    using 1(2) 2(2) repr_mono [of "s @ e1" v' "g x" e2] by simp
  have c: "list_all (fresh (length s)) (v' # vs')"
    using 1(3) 2(3) by (auto simp: list_all_iff intro: fresh_mono)
  have d: "fresh_cells (length s) (e1 @ e2)"
    using 1(4) 2(4) fresh_cells_mono [of "length (s @ e1)" e2 "length s"]
    by (simp add: fresh_cells_append)
  from a b c d show ?case by blast
qed


inductive_cases repr_JUndefinedE: "repr s v JUndefined"
inductive_cases repr_JNullE: "repr s v JNull"
inductive_cases repr_JBoolE: "repr s v (JBool b)"
inductive_cases repr_JNumE: "repr s v (JNum n)"
inductive_cases repr_JStrE: "repr s v (JStr x)"
inductive_cases repr_JIdE: "repr s v (JId x)"
inductive_cases repr_JArrE: "repr s v (JArr xs)"
inductive_cases repr_JObjE: "repr s v (JObj ps)"

lemma list_repr_mono: "list_all2 (repr s) vs xs \<Longrightarrow> list_all2 (repr (s @ e)) vs xs"
  by (erule list_all2_mono) (rule repr_mono)

lemma fresh_cells_Nil: "fresh_cells k []"
  by (simp add: fresh_cells_def)

lemma store_clone_ok:
  assumes "repr s v t" "depth t < n"
  shows "\<exists>v' e. store_clone n uid stringify s v = Some (v', s @ e)
                \<and> repr (s @ e) v' (cloneDeepWith_user uid stringify t)
                \<and> fresh (length s) v' \<and> fresh_cells (length s) e"
  using assms
proof (induction t arbitrary: n s v rule: jsval.induct)
  case JUndefined
  then obtain m where "n = Suc m" by (cases n) auto
  with JUndefined show ?case
    by (auto elim!: repr_JUndefinedE intro: repr.intros simp: fresh_def fresh_cells_Nil)
next
  case JNull
  then obtain m where "n = Suc m" by (cases n) auto
  with JNull show ?case
    by (auto elim!: repr_JNullE intro: repr.intros simp: fresh_def fresh_cells_Nil)
next
  case (JBool b)
  then obtain m where "n = Suc m" by (cases n) auto
  with JBool show ?case
    by (auto elim!: repr_JBoolE intro: repr.intros simp: fresh_def fresh_cells_Nil)
next
  case (JNum k)
  then obtain m where "n = Suc m" by (cases n) auto
  with JNum show ?case
    by (auto elim!: repr_JNumE intro: repr.intros simp: fresh_def fresh_cells_Nil)
next
  case (JStr x)
  then obtain m where "n = Suc m" by (cases n) auto
  with JStr show ?case
    by (auto elim!: repr_JStrE intro: repr.intros
          simp: fresh_def fresh_cells_Nil current_user_value_def split: option.splits)
next
  case (JId x)
  then obtain m where "n = Suc m" by (cases n) auto
  with JId show ?case
    by (auto elim!: repr_JIdE intro: repr.intros simp: fresh_def fresh_cells_Nil)
next
  case (JArr xs)
  from JArr.prems(2) obtain m where n: "n = Suc m" by (cases n) auto
  from JArr.prems(1) obtain a vs where v: "v = HRef a" "a < length s" "s ! a = HArr vs"
      "list_all2 (repr s) vs xs"
    by (auto elim: repr_JArrE)
  have d: "depth x < m" if "x \<in> set xs" for x
    using depth_elem [OF that] JArr.prems(2) n by simp
  have "\<exists>vs' e. clone_list (store_clone m uid stringify) s vs = Some (vs', s @ e)
          \<and> list_all2 (repr (s @ e)) vs' (map (cloneDeepWith_user uid stringify) xs)
          \<and> list_all (fresh (length s)) vs' \<and> fresh_cells (length s) e"
    using JArr.IH d by (intro clone_list_ok [OF _ v(4)]) blast
  then obtain vs' e where c: "clone_list (store_clone m uid stringify) s vs = Some (vs', s @ e)"
      "list_all2 (repr (s @ e)) vs' (map (cloneDeepWith_user uid stringify) xs)"
      "list_all (fresh (length s)) vs'" "fresh_cells (length s) e"
    by auto
  have 1: "store_clone n uid stringify s v = Some (HRef (length (s @ e)), s @ (e @ [HArr vs']))"
    using n v c(1) by simp
  have 2: "repr (s @ (e @ [HArr vs'])) (HRef (length (s @ e)))
             (cloneDeepWith_user uid stringify (JArr xs))"
  proof -
    have "list_all2 (repr ((s @ e) @ [HArr vs'])) vs' (map (cloneDeepWith_user uid stringify) xs)"
      using c(2) by (rule list_repr_mono)
    then show ?thesis
      using repr.intros(7) [of "length (s @ e)" "(s @ e) @ [HArr vs']" vs'
          "map (cloneDeepWith_user uid stringify) xs"]
      by (simp add: nth_append)
  qed
  have 3: "fresh (length s) (HRef (length (s @ e)))" by (simp add: fresh_def)
  have 4: "fresh_cells (length s) (e @ [HArr vs'])"
    using c(3,4) by (simp add: fresh_cells_def)
  from 1 2 3 4 show ?case by blast
next
  case (JObj ps)
  from JObj.prems(2) obtain m where n: "n = Suc m" by (cases n) auto
  from JObj.prems(1) obtain a qs where v: "v = HRef a" "a < length s" "s ! a = HObj qs"
      "map fst qs = map fst ps" "list_all2 (repr s) (map snd qs) (map snd ps)"
    by (auto elim: repr_JObjE)
  have d: "depth x < m" if "x \<in> set (map snd ps)" for x
  proof -
    from that obtain p where "p \<in> set ps" "x = snd p" by auto
    then show ?thesis using depth_prop [of p ps] JObj.prems(2) n by simp
  qed
  have ih: "\<exists>v' e. store_clone m uid stringify s' v0 = Some (v', s' @ e)
                \<and> repr (s' @ e) v' (cloneDeepWith_user uid stringify x)
                \<and> fresh (length s') v' \<and> fresh_cells (length s') e"
    if "x \<in> set (map snd ps)" "repr s' v0 x" for x s' v0
  proof -
    from that(1) obtain p where p: "p \<in> set ps" "x = snd p" by auto
    have "snd p \<in> Basic_BNFs.snds p" by (cases p) simp
    then have "x \<in> Basic_BNFs.snds p" using p(2) by simp
    from JObj.IH [OF p(1) this that(2) d [OF that(1)]] show ?thesis .
  qed
  have "\<exists>vs' e. clone_list (store_clone m uid stringify) s (map snd qs) = Some (vs', s @ e)
          \<and> list_all2 (repr (s @ e)) vs' (map (cloneDeepWith_user uid stringify) (map snd ps))
          \<and> list_all (fresh (length s)) vs' \<and> fresh_cells (length s) e"
    using ih by (intro clone_list_ok [OF _ v(5)]) blast
  then obtain vs' e where c: "clone_list (store_clone m uid stringify) s (map snd qs) = Some (vs', s @ e)"
      "list_all2 (repr (s @ e)) vs' (map (cloneDeepWith_user uid stringify) (map snd ps))"
      "list_all (fresh (length s)) vs'" "fresh_cells (length s) e"
    by auto
  have len: "length vs' = length qs"
    using c(2) v(4) by (auto dest!: list_all2_lengthD arg_cong [where f = length])
  have lenp: "length ps = length qs"
    using arg_cong [OF v(4), of length] by simp
  have z: "map fst (zip (map fst qs) vs') = map fst ps" "map snd (zip (map fst qs) vs') = vs'"
    using len lenp v(4) by simp_all
  have 1: "store_clone n uid stringify s v =
             Some (HRef (length (s @ e)), s @ (e @ [HObj (zip (map fst qs) vs')]))"
    using n v c(1) by simp
  have 2: "repr (s @ (e @ [HObj (zip (map fst qs) vs')])) (HRef (length (s @ e)))
             (cloneDeepWith_user uid stringify (JObj ps))"
  proof -
    have "list_all2 (repr ((s @ e) @ [HObj (zip (map fst qs) vs')])) vs'
            (map (cloneDeepWith_user uid stringify) (map snd ps))"
      using c(2) by (rule list_repr_mono)
    then show ?thesis
      using repr.intros(8) [of "length (s @ e)" "(s @ e) @ [HObj (zip (map fst qs) vs')]"
          "zip (map fst qs) vs'" "map (map_prod id (cloneDeepWith_user uid stringify)) ps"] z
      by (simp add: nth_append comp_def)
  qed
  have 3: "fresh (length s) (HRef (length (s @ e)))" by (simp add: fresh_def)
  have 4: "fresh_cells (length s) (e @ [HObj (zip (map fst qs) vs')])"
    using c(3,4) z by (simp add: fresh_cells_def)
  from 1 2 3 4 show ?case by blast
qed

text \<open>
  C7, as the claim states it, fails for a principal without an id: the customizer then
  returns \<open>undefined\<close> for the sentinel, which tells \<open>cloneDeepWith\<close> to copy the value
  as it is, so the copy still holds \<open>*current_user*\<close>, with and without \<open>stringify\<close>.
\<close>

theorem setCurrentUser_without_id_keeps_sentinel:
  "user_id (user (sample_chain ''Read''\<lparr>user := sample_visitor\<rparr>)) = None
   \<and> setCurrentUser (sample_chain ''Read''\<lparr>user := sample_visitor\<rparr>)
       (JObj [(''owner'', JStr ''*current_user*'')]) False =
     JObj [(''owner'', JStr ''*current_user*'')]
   \<and> setCurrentUser (sample_chain ''Read''\<lparr>user := sample_visitor\<rparr>)
       (JObj [(''owner'', JStr ''*current_user*'')]) True =
     JObj [(''owner'', JStr ''*current_user*'')]
   \<and> setCurrentUser_store (sample_chain ''Read''\<lparr>user := sample_visitor\<rparr>) 2
       [HObj [(''owner'', HStr ''*current_user*'')]] (HRef 0) True =
     Some (HRef 1, [HObj [(''owner'', HStr ''*current_user*'')],
                    HObj [(''owner'', HStr ''*current_user*'')]])"
  by (simp add: setCurrentUser_def setCurrentUser_store_def current_user_value_def
        sample_chain_def sample_visitor_def sample_user_def numeral_2_eq_2)

text \<open>
  C7, amended. For a principal that has an id, \<open>setCurrentUser\<close> returns the deep copy
  of the data in which every scalar equal to the sentinel \<open>*current_user*\<close> is the
  principal's id, as a string with \<open>stringify\<close> and as the id object without; so
  \<open>{owner: "*current_user*"}\<close> becomes \<open>{owner: id}\<close>. On a store in which the value \<open>v\<close>
  is the tree \<open>t\<close>, with fuel above the depth of \<open>t\<close>, the call returns; the store after
  it is the store before it with new cells appended, so every cell of the input is
  where it was and as it was and \<open>v\<close> is still \<open>t\<close>; the returned value is the
  substituted tree, and it and the new cells refer to new cells only: the copy shares
  no cell with the input. The store side is \<open>cloneDeepWith\<close> as the library documents
  it (a recursive copy that allocates a new object or array for each one it copies
  and never assigns into its argument); the customizer of \<open>setCurrentUser\<close> itself
  writes nothing, and the optional callback is the caller's.
\<close>

theorem setCurrentUser_substitutes:
  assumes "user_id (user this) = Some uid"
    and "repr s v t"
    and "depth t < n"
  shows "setCurrentUser this t stringify =
           substituteIdentity t ''*current_user*'' (if stringify then JStr uid else JId uid)
       \<and> setCurrentUser this (JObj [(''owner'', JStr ''*current_user*'')]) False =
           JObj [(''owner'', JId uid)]
       \<and> (\<exists>v' e. setCurrentUser_store this n s v stringify = Some (v', s @ e)
             \<and> repr (s @ e) v'
                 (substituteIdentity t ''*current_user*'' (if stringify then JStr uid else JId uid))
             \<and> repr (s @ e) v t
             \<and> fresh (length s) v' \<and> fresh_cells (length s) e)"
proof -
  have a: "setCurrentUser this t stringify =
           substituteIdentity t ''*current_user*'' (if stringify then JStr uid else JId uid)"
    using assms(1) cloneDeepWith_user_substitutes [of uid stringify t]
    by (simp add: setCurrentUser_def)
  have b: "setCurrentUser this (JObj [(''owner'', JStr ''*current_user*'')]) False =
           JObj [(''owner'', JId uid)]"
    using assms(1) by (simp add: setCurrentUser_def current_user_value_def)
  obtain v' e where c: "store_clone n (Some uid) stringify s v = Some (v', s @ e)"
      "repr (s @ e) v' (cloneDeepWith_user (Some uid) stringify t)"
      "fresh (length s) v'" "fresh_cells (length s) e"
    using store_clone_ok [OF assms(2,3), of "Some uid" stringify] by blast
  have d: "repr (s @ e) v t"
    using assms(2) by (rule repr_mono)
  have "setCurrentUser_store this n s v stringify = Some (v', s @ e)
      \<and> repr (s @ e) v'
          (substituteIdentity t ''*current_user*'' (if stringify then JStr uid else JId uid))
      \<and> repr (s @ e) v t \<and> fresh (length s) v' \<and> fresh_cells (length s) e"
    using c d assms(1) cloneDeepWith_user_substitutes [of uid stringify t]
    by (simp add: setCurrentUser_store_def)
  then show ?thesis
    using a b by blast
qed

theorem setCurrentUser_substitutes_witness:
  "repr [HObj [(''owner'', HStr ''*current_user*'')]] (HRef 0)
     (JObj [(''owner'', JStr ''*current_user*'')])
   \<and> setCurrentUser (sample_chain ''Create'') (JObj [(''owner'', JStr ''*current_user*'')]) True =
       JObj [(''owner'', JStr ''65f0c0ffee'')]
   \<and> setCurrentUser_store (sample_chain ''Create'') 2
       [HObj [(''owner'', HStr ''*current_user*'')]] (HRef 0) True =
       Some (HRef 1, [HObj [(''owner'', HStr ''*current_user*'')],
                      HObj [(''owner'', HStr ''65f0c0ffee'')]])
   \<and> (\<exists>v' e. setCurrentUser_store (sample_chain ''Create'') 2
                [HObj [(''owner'', HStr ''*current_user*'')]] (HRef 0) True =
                Some (v', [HObj [(''owner'', HStr ''*current_user*'')]] @ e)
             \<and> repr ([HObj [(''owner'', HStr ''*current_user*'')]] @ e) v'
                 (JObj [(''owner'', JStr ''65f0c0ffee'')])
             \<and> repr ([HObj [(''owner'', HStr ''*current_user*'')]] @ e) (HRef 0)
                 (JObj [(''owner'', JStr ''*current_user*'')])
             \<and> fresh 1 v' \<and> fresh_cells 1 e)"
proof -
  have h: "user_id (user (sample_chain ''Create'')) = Some ''65f0c0ffee''"
    by (simp add: sample_chain_def sample_user_def)
  have r: "repr [HObj [(''owner'', HStr ''*current_user*'')]] (HRef 0)
             (JObj [(''owner'', JStr ''*current_user*'')])"
    by (rule repr.intros(8) [where qs = "[(''owner'', HStr ''*current_user*'')]"])
       (simp_all add: repr.intros)
  have d: "depth (JObj [(''owner'', JStr ''*current_user*'')]) < 2"
    by simp
  have e: "setCurrentUser_store (sample_chain ''Create'') 2
       [HObj [(''owner'', HStr ''*current_user*'')]] (HRef 0) True =
       Some (HRef 1, [HObj [(''owner'', HStr ''*current_user*'')],
                      HObj [(''owner'', HStr ''65f0c0ffee'')]])"
    by (simp add: setCurrentUser_store_def h numeral_2_eq_2 current_user_value_def)
  show ?thesis
    using r e setCurrentUser_substitutes [OF h r d, of True] by simp
qed

end
